theory Spec2Isabelle
  imports Main "HOL-Library.Multiset"
begin

section \<open>Storage\<close>

text \<open>
  The handlers of \<^verbatim>\<open>app.js\<close>, and of the longer listing of the same application that
  adds the catalog, coupon and report routes, keep no state of their own: every one of
  them issues SQL statements against the tables \<^verbatim>\<open>cart\<close>, \<^verbatim>\<open>customer_order\<close>, \<^verbatim>\<open>order_item\<close>,
  \<^verbatim>\<open>product\<close> and \<^verbatim>\<open>coupon\<close>. A table is the list of its rows, a row is a record of
  the columns the statements name. Identifiers, quantities and stock levels are integers,
  prices are integers in minor units, dates and timestamps are integers on a common
  time line, \<^verbatim>\<open>payment_method\<close> is nullable.
\<close>

record cart_row =
  c_customer_id :: int
  c_product_id :: int
  c_quantity :: int

record order_row =
  o_id :: int
  o_customer_id :: int
  o_status :: string
  o_shipping_address :: string
  o_payment_method :: "string option"
  o_created_at :: int

record order_item_row =
  oi_order_id :: int
  oi_product_id :: int
  oi_quantity :: int

record product_row =
  p_id :: int
  p_name :: string
  p_description :: string
  p_price :: int
  p_category_id :: int
  p_stock_quantity :: int

record coupon_row =
  cp_code :: string
  cp_discount_percent :: int
  cp_valid_from :: int
  cp_valid_to :: int

text \<open>
  \<^verbatim>\<open>INSERT INTO customer_order ... RETURNING id\<close> leaves the choice of the id to the
  store; \<open>customer_order_id_seq\<close> is the sequence it is drawn from.
\<close>

record db =
  cart :: "cart_row list"
  customer_order :: "order_row list"
  order_item :: "order_item_row list"
  product :: "product_row list"
  coupon :: "coupon_row list"
  customer_order_id_seq :: int

section \<open>Responses and storage faults\<close>

text \<open>
  A handler answers with \<^verbatim>\<open>res.status(n).json(...)\<close>: \<open>Success n payload\<close> on the
  path that ends the \<^verbatim>\<open>try\<close> block, \<open>Failure n message\<close> on an early return or in
  the \<^verbatim>\<open>catch\<close> block.

  Every \<^verbatim>\<open>await pool.query(...)\<close> may raise (storage error, constraint violation).
  The handlers take a parameter \<open>faults\<close>: \<open>faults k\<close> says that the \<open>k\<close>-th
  statement the handler issues (counted from 0 in execution order) raises. A statement
  that raises has no effect. The handlers are modelled after the middleware
  (\<^verbatim>\<open>verifyToken\<close>, \<^verbatim>\<open>isAdmin\<close>) has let the request through; \<open>uid\<close> is
  \<^verbatim>\<open>req.userId\<close>.
\<close>

datatype 'a response = Success nat 'a | Failure nat string

definition no_faults :: "nat \<Rightarrow> bool" where
  "no_faults k = False"

section \<open>Cart handlers\<close>

definition cart_key :: "int \<Rightarrow> int \<Rightarrow> cart_row \<Rightarrow> bool" where
  "cart_key uid pid r = (c_customer_id r = uid \<and> c_product_id r = pid)"

text \<open>\<^verbatim>\<open>SELECT ... FROM cart WHERE customer_id = $1\<close>\<close>

definition cart_lines :: "int \<Rightarrow> db \<Rightarrow> cart_row list" where
  "cart_lines uid d = filter (\<lambda>r. c_customer_id r = uid) (cart d)"

text \<open>
  \<^verbatim>\<open>INSERT INTO cart (customer_id, product_id, quantity) VALUES ($1, $2, $3)
  ON CONFLICT (customer_id, product_id) DO UPDATE SET quantity = cart.quantity + $3\<close>
\<close>

definition upsert_cart :: "int \<Rightarrow> int \<Rightarrow> int \<Rightarrow> cart_row list \<Rightarrow> cart_row list" where
  "upsert_cart uid pid quantity rows =
     (if list_ex (cart_key uid pid) rows
      then map (\<lambda>r. if cart_key uid pid r then r\<lparr>c_quantity := c_quantity r + quantity\<rparr> else r) rows
      else rows @ [\<lparr>c_customer_id = uid, c_product_id = pid, c_quantity = quantity\<rparr>])"

text \<open>\<^verbatim>\<open>app.post('/cart')\<close>\<close>

definition add_to_cart :: "(nat \<Rightarrow> bool) \<Rightarrow> int \<Rightarrow> int \<Rightarrow> int \<Rightarrow> db \<Rightarrow> string response \<times> db" where
  "add_to_cart faults uid productId quantity d =
     (if faults 0 then (Failure 400 ''Error adding to cart'', d)
      else (Success 201 ''Product added to cart'',
            d\<lparr>cart := upsert_cart uid productId quantity (cart d)\<rparr>))"

text \<open>\<^verbatim>\<open>app.delete('/cart/:productId')\<close>\<close>

definition remove_from_cart :: "(nat \<Rightarrow> bool) \<Rightarrow> int \<Rightarrow> int \<Rightarrow> db \<Rightarrow> string response \<times> db" where
  "remove_from_cart faults uid productId d =
     (if faults 0 then (Failure 400 ''Error removing from cart'', d)
      else (Success 200 ''Product removed from cart'',
            d\<lparr>cart := filter (\<lambda>r. \<not> cart_key uid productId r) (cart d)\<rparr>))"

text \<open>
  \<^verbatim>\<open>app.put('/cart/:productId')\<close>: the \<^verbatim>\<open>UPDATE ... RETURNING *\<close> runs first, the
  handler then looks at the rows it returned.
\<close>

definition update_cart_quantity ::
  "(nat \<Rightarrow> bool) \<Rightarrow> int \<Rightarrow> int \<Rightarrow> int \<Rightarrow> db \<Rightarrow> cart_row response \<times> db" where
  "update_cart_quantity faults uid productId quantity d =
     (if faults 0 then (Failure 400 ''Error updating cart item quantity'', d)
      else
        let d' = d\<lparr>cart := map (\<lambda>r. if cart_key uid productId r then r\<lparr>c_quantity := quantity\<rparr> else r) (cart d)\<rparr>;
            rows = map (\<lambda>r. r\<lparr>c_quantity := quantity\<rparr>) (filter (cart_key uid productId) (cart d))
        in (case rows of
              [] \<Rightarrow> (Failure 404 ''Cart item not found'', d')
            | item # _ \<Rightarrow> (Success 200 item, d')))"

text \<open>\<^verbatim>\<open>app.delete('/cart')\<close>\<close>

definition clear_cart :: "(nat \<Rightarrow> bool) \<Rightarrow> int \<Rightarrow> db \<Rightarrow> string response \<times> db" where
  "clear_cart faults uid d =
     (if faults 0 then (Failure 500 ''Error clearing cart'', d)
      else (Success 200 ''Cart cleared successfully'',
            d\<lparr>cart := filter (\<lambda>r. c_customer_id r \<noteq> uid) (cart d)\<rparr>))"

text \<open>
  \<^verbatim>\<open>app.get('/cart')\<close>: the cart lines joined to their products,
  \<^verbatim>\<open>SELECT c.*, p.name, p.price FROM cart c JOIN product p ON c.product_id = p.id
  WHERE c.customer_id = $1\<close>.
\<close>

definition get_cart :: "(nat \<Rightarrow> bool) \<Rightarrow> int \<Rightarrow> db \<Rightarrow> (cart_row \<times> string \<times> int) list response" where
  "get_cart faults uid d =
     (if faults 0 then Failure 500 ''Error fetching cart''
      else Success 200
             (concat (map (\<lambda>c. map (\<lambda>p. (c, p_name p, p_price p))
                                   (filter (\<lambda>p. c_product_id c = p_id p) (product d)))
                          (cart_lines uid d))))"

section \<open>Order handlers\<close>

text \<open>
  \<^verbatim>\<open>app.post('/orders')\<close>. The statements between \<^verbatim>\<open>BEGIN\<close> and
  \<^verbatim>\<open>COMMIT\<close> act on the connection's working copy of the tables. They are numbered
  0 (\<^verbatim>\<open>BEGIN\<close>), 1 (the order header), 2 (the cart read), \<open>3 \<dots> n + 2\<close> (one
  \<^verbatim>\<open>INSERT INTO order_item\<close> per cart row, \<open>n\<close> rows), \<open>n + 3\<close> (the cart
  delete) and \<open>n + 4\<close> (\<^verbatim>\<open>COMMIT\<close>).

  The loop \<^verbatim>\<open>for (const item of cartItems.rows)\<close>: \<open>Inl\<close> carries the working copy
  at the statement that raised, \<open>Inr\<close> the working copy after the last row.
\<close>

fun insert_order_items ::
  "(nat \<Rightarrow> bool) \<Rightarrow> nat \<Rightarrow> int \<Rightarrow> (int \<times> int) list \<Rightarrow> db \<Rightarrow> db + db" where
  "insert_order_items faults k orderId [] d = Inr d"
| "insert_order_items faults k orderId ((product_id, quantity) # items) d =
     (if faults k then Inl d
      else insert_order_items faults (Suc k) orderId items
             (d\<lparr>order_item := order_item d @
                   [\<lparr>oi_order_id = orderId, oi_product_id = product_id, oi_quantity = quantity\<rparr>]\<rparr>))"

text \<open>
  The body of the \<^verbatim>\<open>try\<close> block. \<open>now\<close> is the store's clock, which fills
  \<^verbatim>\<open>created_at\<close>; \<^verbatim>\<open>payment_method\<close> is not among the inserted columns and starts
  as NULL.
\<close>

definition place_order_tx ::
  "(nat \<Rightarrow> bool) \<Rightarrow> int \<Rightarrow> string \<Rightarrow> int \<Rightarrow> db \<Rightarrow> db + (int \<times> db)" where
  "place_order_tx faults uid shippingAddress now d =
     (if faults 0 then Inl d
      else if faults 1 then Inl d
      else
        let orderId = customer_order_id_seq d;
            d1 = d\<lparr>customer_order := customer_order d @
                       [\<lparr>o_id = orderId, o_customer_id = uid, o_status = ''Pending'',
                         o_shipping_address = shippingAddress, o_payment_method = None,
                         o_created_at = now\<rparr>],
                    customer_order_id_seq := orderId + 1\<rparr>
        in
        if faults 2 then Inl d1
        else
          let cartItems = map (\<lambda>r. (c_product_id r, c_quantity r)) (cart_lines uid d1) in
          (case insert_order_items faults 3 orderId cartItems d1 of
             Inl w \<Rightarrow> Inl w
           | Inr d2 \<Rightarrow>
               if faults (3 + length cartItems) then Inl d2
               else
                 let d3 = d2\<lparr>cart := filter (\<lambda>r. c_customer_id r \<noteq> uid) (cart d2)\<rparr> in
                 if faults (4 + length cartItems) then Inl d3
                 else Inr (orderId, d3)))"

text \<open>
  \<^verbatim>\<open>ROLLBACK\<close> discards the working copy and gives back the tables as they were at
  \<^verbatim>\<open>BEGIN\<close>. An id drawn from the sequence is not given back.
\<close>

definition rollback :: "db \<Rightarrow> db \<Rightarrow> db" where
  "rollback snapshot working =
     snapshot\<lparr>customer_order_id_seq := customer_order_id_seq working\<rparr>"

definition place_order ::
  "(nat \<Rightarrow> bool) \<Rightarrow> int \<Rightarrow> string \<Rightarrow> int \<Rightarrow> db \<Rightarrow> int response \<times> db" where
  "place_order faults uid shippingAddress now d =
     (case place_order_tx faults uid shippingAddress now d of
        Inr (orderId, d') \<Rightarrow> (Success 201 orderId, d')
      | Inl working \<Rightarrow> (Failure 400 ''Error creating order'', rollback d working))"

text \<open>
  \<^verbatim>\<open>app.get('/orders/:orderId')\<close>: the order header of this customer, then
  \<^verbatim>\<open>SELECT oi.*, p.name, p.price FROM order_item oi JOIN product p
  ON oi.product_id = p.id WHERE oi.order_id = $1\<close>.
\<close>

record order_item_view =
  v_order_id :: int
  v_product_id :: int
  v_quantity :: int
  v_name :: string
  v_price :: int

definition order_items_joined :: "int \<Rightarrow> db \<Rightarrow> order_item_view list" where
  "order_items_joined orderId d =
     concat (map (\<lambda>oi. map (\<lambda>p. \<lparr>v_order_id = oi_order_id oi, v_product_id = oi_product_id oi,
                                  v_quantity = oi_quantity oi, v_name = p_name p, v_price = p_price p\<rparr>)
                            (filter (\<lambda>p. oi_product_id oi = p_id p) (product d)))
                 (filter (\<lambda>oi. oi_order_id oi = orderId) (order_item d)))"

definition get_order ::
  "(nat \<Rightarrow> bool) \<Rightarrow> int \<Rightarrow> int \<Rightarrow> db \<Rightarrow> (order_row \<times> order_item_view list) response" where
  "get_order faults uid orderId d =
     (if faults 0 then Failure 500 ''Error fetching order details''
      else
        (case filter (\<lambda>co. o_id co = orderId \<and> o_customer_id co = uid) (customer_order d) of
           [] \<Rightarrow> Failure 404 ''Order not found''
         | order # _ \<Rightarrow>
             if faults 1 then Failure 500 ''Error fetching order details''
             else Success 200 (order, order_items_joined orderId d)))"

text \<open>
  \<^verbatim>\<open>app.post('/orders/:orderId/pay')\<close>: a read of the customer's order, then
  \<^verbatim>\<open>UPDATE customer_order SET status = 'Paid', payment_method = $2 WHERE id = $3\<close>.
\<close>

definition pay :: "(nat \<Rightarrow> bool) \<Rightarrow> int \<Rightarrow> int \<Rightarrow> string \<Rightarrow> db \<Rightarrow> string response \<times> db" where
  "pay faults uid orderId paymentMethod d =
     (if faults 0 then (Failure 500 ''Error processing payment'', d)
      else
        (case filter (\<lambda>co. o_id co = orderId \<and> o_customer_id co = uid) (customer_order d) of
           [] \<Rightarrow> (Failure 404 ''Order not found'', d)
         | order # _ \<Rightarrow>
             if faults 1 then (Failure 500 ''Error processing payment'', d)
             else (Success 200 ''Payment processed successfully'',
                   d\<lparr>customer_order :=
                        map (\<lambda>co. if o_id co = orderId
                                  then co\<lparr>o_status := ''Paid'', o_payment_method := Some paymentMethod\<rparr>
                                  else co)
                            (customer_order d)\<rparr>)))"

text \<open>
  \<^verbatim>\<open>app.patch('/orders/:orderId/status')\<close>:
  \<^verbatim>\<open>UPDATE customer_order SET status = $1 WHERE id = $2 RETURNING *\<close>.
\<close>

definition set_order_status ::
  "(nat \<Rightarrow> bool) \<Rightarrow> int \<Rightarrow> string \<Rightarrow> db \<Rightarrow> order_row response \<times> db" where
  "set_order_status faults orderId status d =
     (if faults 0 then (Failure 400 ''Error updating order status'', d)
      else
        let d' = d\<lparr>customer_order :=
                     map (\<lambda>co. if o_id co = orderId then co\<lparr>o_status := status\<rparr> else co)
                         (customer_order d)\<rparr>;
            rows = map (\<lambda>co. co\<lparr>o_status := status\<rparr>)
                       (filter (\<lambda>co. o_id co = orderId) (customer_order d))
        in (case rows of
              [] \<Rightarrow> (Failure 404 ''Order not found'', d')
            | order # _ \<Rightarrow> (Success 200 order, d')))"

section \<open>Catalog, coupons and reports\<close>

text \<open>
  \<^verbatim>\<open>app.put('/products/:id')\<close>:
  \<^verbatim>\<open>UPDATE product SET name = $1, description = $2, price = $3, category_id = $4,
  stock_quantity = $5 WHERE id = $6 RETURNING *\<close>.
\<close>

definition update_product ::
  "(nat \<Rightarrow> bool) \<Rightarrow> int \<Rightarrow> string \<Rightarrow> string \<Rightarrow> int \<Rightarrow> int \<Rightarrow> int \<Rightarrow> db \<Rightarrow> product_row response \<times> db" where
  "update_product faults ident name description price category_id stock_quantity d =
     (if faults 0 then (Failure 400 ''Error updating product'', d)
      else
        let new = (\<lambda>p. p\<lparr>p_name := name, p_description := description, p_price := price,
                         p_category_id := category_id, p_stock_quantity := stock_quantity\<rparr>);
            d' = d\<lparr>product := map (\<lambda>p. if p_id p = ident then new p else p) (product d)\<rparr>;
            rows = map new (filter (\<lambda>p. p_id p = ident) (product d))
        in (case rows of
              [] \<Rightarrow> (Failure 404 ''Product not found'', d')
            | row # _ \<Rightarrow> (Success 200 row, d')))"

text \<open>
  \<^verbatim>\<open>app.post('/apply-coupon')\<close>:
  \<^verbatim>\<open>SELECT * FROM coupon WHERE code = $1 AND valid_from <= CURRENT_DATE
  AND valid_to >= CURRENT_DATE\<close>; \<open>current_date\<close> is the store's \<^verbatim>\<open>CURRENT_DATE\<close>.
\<close>

definition apply_coupon :: "(nat \<Rightarrow> bool) \<Rightarrow> string \<Rightarrow> int \<Rightarrow> db \<Rightarrow> int response" where
  "apply_coupon faults code current_date d =
     (if faults 0 then Failure 500 ''Error applying coupon''
      else
        (case filter (\<lambda>c. cp_code c = code \<and> cp_valid_from c \<le> current_date
                            \<and> cp_valid_to c \<ge> current_date) (coupon d) of
           [] \<Rightarrow> Failure 404 ''Invalid or expired coupon''
         | row # _ \<Rightarrow> Success 200 (cp_discount_percent row)))"

text \<open>
  \<^verbatim>\<open>app.get('/admin/low-stock-alerts')\<close>: \<^verbatim>\<open>req.query.threshold || 10\<close>, then
  \<^verbatim>\<open>SELECT id, name, stock_quantity FROM product WHERE stock_quantity <= $1
  ORDER BY stock_quantity ASC\<close>. \<open>None\<close> is a request without the parameter or
  with an empty one; a parameter that is present is a non-empty string, which
  \<^verbatim>\<open>||\<close> keeps also when it reads 0. The order of rows with equal stock is the
  store's choice; the model keeps the table's.
\<close>

definition low_stock_alerts ::
  "(nat \<Rightarrow> bool) \<Rightarrow> int option \<Rightarrow> db \<Rightarrow> (int \<times> string \<times> int) list response" where
  "low_stock_alerts faults query_threshold d =
     (let threshold = (case query_threshold of None \<Rightarrow> 10 | Some t \<Rightarrow> t) in
      if faults 0 then Failure 500 ''Error fetching low stock alerts''
      else Success 200
             (sort_key (\<lambda>(ident, name, stock_quantity). stock_quantity)
                (map (\<lambda>p. (p_id p, p_name p, p_stock_quantity p))
                     (filter (\<lambda>p. p_stock_quantity p \<le> threshold) (product d)))))"

text \<open>
  \<^verbatim>\<open>app.get('/admin/sales-report')\<close>. The rows of
  \<^verbatim>\<open>order_item oi JOIN product p ON oi.product_id = p.id
  JOIN customer_order co ON oi.order_id = co.id WHERE co.created_at BETWEEN $1 AND $2\<close>:
\<close>

definition sales_rows :: "int \<Rightarrow> int \<Rightarrow> db \<Rightarrow> (order_item_row \<times> product_row) list" where
  "sales_rows startDate endDate d =
     concat (map (\<lambda>oi.
       concat (map (\<lambda>p.
         map (\<lambda>co. (oi, p))
             (filter (\<lambda>co. oi_order_id oi = o_id co
                           \<and> startDate \<le> o_created_at co \<and> o_created_at co \<le> endDate)
                     (customer_order d)))
         (filter (\<lambda>p. oi_product_id oi = p_id p) (product d))))
       (order_item d))"

record sales_row =
  s_id :: int
  s_name :: string
  s_total_sold :: int
  s_revenue :: int

text \<open>
  \<^verbatim>\<open>SELECT p.id, p.name, SUM(oi.quantity) as total_sold,
  SUM(oi.quantity * p.price) as revenue ... GROUP BY p.id, p.name ORDER BY revenue DESC\<close>
\<close>

definition sales_group :: "(order_item_row \<times> product_row) list \<Rightarrow> int \<times> string \<Rightarrow> sales_row" where
  "sales_group rows g =
     (let members = filter (\<lambda>(oi, p). (p_id p, p_name p) = g) rows in
      \<lparr>s_id = fst g, s_name = snd g,
       s_total_sold = sum_list (map (\<lambda>(oi, p). oi_quantity oi) members),
       s_revenue = sum_list (map (\<lambda>(oi, p). oi_quantity oi * p_price p) members)\<rparr>)"

definition sales_report :: "(nat \<Rightarrow> bool) \<Rightarrow> int \<Rightarrow> int \<Rightarrow> db \<Rightarrow> sales_row list response" where
  "sales_report faults startDate endDate d =
     (if faults 0 then Failure 500 ''Error generating sales report''
      else
        let rows = sales_rows startDate endDate d;
            groups = remdups (map (\<lambda>(oi, p). (p_id p, p_name p)) rows)
        in Success 200 (sort_key (\<lambda>r. - s_revenue r) (map (sales_group rows) groups)))"

section \<open>Requests in sequence\<close>

text \<open>
  The requests that write to \<^verbatim>\<open>cart\<close>, \<^verbatim>\<open>customer_order\<close>, \<^verbatim>\<open>order_item\<close> or
  change a product's price, each with the faults of its own statements. \<open>step\<close> is the
  effect of one request on the store, \<open>run\<close> that of a sequence of requests served one
  after the other. The remaining routes (product creation, deletion and stock, coupons,
  reviews, wishlist, addresses, profile) issue no statement on \<^verbatim>\<open>cart\<close>,
  \<^verbatim>\<open>customer_order\<close> or \<^verbatim>\<open>order_item\<close>.
\<close>

datatype request =
    AddToCart int int int
  | RemoveFromCart int int
  | UpdateCartQuantity int int int
  | ClearCart int
  | PlaceOrder int string int
  | Pay int int string
  | SetOrderStatus int string
  | UpdateProduct int string string int int int

fun step :: "(nat \<Rightarrow> bool) \<times> request \<Rightarrow> db \<Rightarrow> db" where
  "step (faults, AddToCart uid productId quantity) d = snd (add_to_cart faults uid productId quantity d)"
| "step (faults, RemoveFromCart uid productId) d = snd (remove_from_cart faults uid productId d)"
| "step (faults, UpdateCartQuantity uid productId quantity) d =
     snd (update_cart_quantity faults uid productId quantity d)"
| "step (faults, ClearCart uid) d = snd (clear_cart faults uid d)"
| "step (faults, PlaceOrder uid shippingAddress now) d = snd (place_order faults uid shippingAddress now d)"
| "step (faults, Pay uid orderId paymentMethod) d = snd (pay faults uid orderId paymentMethod d)"
| "step (faults, SetOrderStatus orderId status) d = snd (set_order_status faults orderId status d)"
| "step (faults, UpdateProduct ident name description price category_id stock_quantity) d =
     snd (update_product faults ident name description price category_id stock_quantity d)"

definition run :: "((nat \<Rightarrow> bool) \<times> request) list \<Rightarrow> db \<Rightarrow> db" where
  "run reqs d = fold step reqs d"

section \<open>Observations\<close>

text \<open>The row one turn of the loop of \<open>insert_order_items\<close> inserts.\<close>

definition item_of :: "int \<Rightarrow> int \<times> int \<Rightarrow> order_item_row" where
  "item_of orderId = (\<lambda>(product_id, quantity). \<lparr>oi_order_id = orderId, oi_product_id = product_id, oi_quantity = quantity\<rparr>)"

text \<open>
  The store after a run of \<^verbatim>\<open>app.post('/orders')\<close> that reached \<^verbatim>\<open>COMMIT\<close>, in
  closed form (lemma \<open>place_order_ok\<close> below).
\<close>

definition placed :: "int \<Rightarrow> string \<Rightarrow> int \<Rightarrow> db \<Rightarrow> db" where
  "placed uid shippingAddress now d =
     d\<lparr>customer_order := customer_order d @
          [\<lparr>o_id = customer_order_id_seq d, o_customer_id = uid, o_status = ''Pending'',
            o_shipping_address = shippingAddress, o_payment_method = None, o_created_at = now\<rparr>],
       order_item := order_item d @
          map (\<lambda>r. \<lparr>oi_order_id = customer_order_id_seq d, oi_product_id = c_product_id r,
                     oi_quantity = c_quantity r\<rparr>) (cart_lines uid d),
       cart := filter (\<lambda>r. c_customer_id r \<noteq> uid) (cart d),
       customer_order_id_seq := customer_order_id_seq d + 1\<rparr>"

text \<open>The product ids and quantities of the \<^verbatim>\<open>order_item\<close> rows of one order.\<close>

definition order_lines :: "int \<Rightarrow> db \<Rightarrow> (int \<times> int) list" where
  "order_lines orderId d =
     map (\<lambda>oi. (oi_product_id oi, oi_quantity oi))
         (filter (\<lambda>oi. oi_order_id oi = orderId) (order_item d))"

text \<open>
  Order ids come from the sequence only, and \<^verbatim>\<open>order_item\<close> rows are inserted under
  the id just drawn: in every store the requests can reach from an empty one, the ids in
  use lie below the sequence (lemmas \<open>step_inv\<close>, \<open>run_inv\<close>).
\<close>

definition ids_below_seq :: "db \<Rightarrow> bool" where
  "ids_below_seq d =
     ((\<forall>co \<in> set (customer_order d). o_id co < customer_order_id_seq d) \<and>
      (\<forall>oi \<in> set (order_item d). oi_order_id oi < customer_order_id_seq d))"

text \<open>
  The condition of the read that opens \<^verbatim>\<open>app.post('/orders/:orderId/pay')\<close>:
  \<^verbatim>\<open>WHERE id = $1 AND customer_id = $2\<close>.
\<close>

definition owned_by :: "int \<Rightarrow> int \<Rightarrow> order_row \<Rightarrow> bool" where
  "owned_by uid orderId co = (o_id co = orderId \<and> o_customer_id co = uid)"

text \<open>The validity window of a coupon, both ends included.\<close>

definition coupon_valid_on :: "int \<Rightarrow> coupon_row \<Rightarrow> bool" where
  "coupon_valid_on asOf c = (cp_valid_from c \<le> asOf \<and> asOf \<le> cp_valid_to c)"

text \<open>
  The quantities of the cart rows with key \<^verbatim>\<open>(customer_id, product_id)\<close>; under the
  unique key the statement \<^verbatim>\<open>ON CONFLICT (customer_id, product_id)\<close> relies on there
  is at most one.
\<close>

definition line_quantity :: "int \<Rightarrow> int \<Rightarrow> db \<Rightarrow> int list" where
  "line_quantity uid pid d = map c_quantity (filter (cart_key uid pid) (cart d))"

text \<open>
  The row \<^verbatim>\<open>SELECT id, name, stock_quantity FROM product\<close> returns for a product, and
  the stock column of such a row.
\<close>

definition alert_of :: "product_row \<Rightarrow> int \<times> string \<times> int" where
  "alert_of p = (p_id p, p_name p, p_stock_quantity p)"

definition alert_stock :: "int \<times> string \<times> int \<Rightarrow> int" where
  "alert_stock a = snd (snd a)"

text \<open>The store with the status of every order replaced by \<open>f\<close> of that order.\<close>

definition restatus :: "(order_row \<Rightarrow> string) \<Rightarrow> db \<Rightarrow> db" where
  "restatus f d = d\<lparr>customer_order := map (\<lambda>co. co\<lparr>o_status := f co\<rparr>) (customer_order d)\<rparr>"

text \<open>
  An order with this id was created between the two dates, both included; the
  \<^verbatim>\<open>order_item\<close> rows of a product that belong to such an order. Neither looks at a
  status.
\<close>

definition in_range :: "int \<Rightarrow> int \<Rightarrow> db \<Rightarrow> int \<Rightarrow> bool" where
  "in_range startDate endDate d orderId =
     list_ex (\<lambda>co. o_id co = orderId \<and> startDate \<le> o_created_at co \<and> o_created_at co \<le> endDate)
             (customer_order d)"

definition sold_items :: "int \<Rightarrow> int \<Rightarrow> db \<Rightarrow> int \<Rightarrow> order_item_row list" where
  "sold_items startDate endDate d pid =
     filter (\<lambda>oi. oi_product_id oi = pid \<and> in_range startDate endDate d (oi_order_id oi))
            (order_item d)"

section \<open>A store to run the handlers on\<close>

text \<open>
  Customer 1 has two cart lines, customer 2 one, customer 3 none; the coupon is valid
  from day 100 to day 130.
\<close>

definition shop_db :: db where
  "shop_db =
     \<lparr>cart = [\<lparr>c_customer_id = 1, c_product_id = 1, c_quantity = 2\<rparr>,
              \<lparr>c_customer_id = 1, c_product_id = 2, c_quantity = 1\<rparr>,
              \<lparr>c_customer_id = 2, c_product_id = 1, c_quantity = 5\<rparr>],
      customer_order = [],
      order_item = [],
      product = [\<lparr>p_id = 1, p_name = ''tea'', p_description = ''green'', p_price = 1000,
                  p_category_id = 1, p_stock_quantity = 12\<rparr>,
                 \<lparr>p_id = 2, p_name = ''mug'', p_description = ''blue'', p_price = 500,
                  p_category_id = 2, p_stock_quantity = 3\<rparr>,
                 \<lparr>p_id = 3, p_name = ''pot'', p_description = ''iron'', p_price = 2500,
                  p_category_id = 2, p_stock_quantity = 10\<rparr>,
                 \<lparr>p_id = 4, p_name = ''cup'', p_description = ''small'', p_price = 300,
                  p_category_id = 2, p_stock_quantity = 0\<rparr>],
      coupon = [\<lparr>cp_code = ''SAVE10'', cp_discount_percent = 10,
                 cp_valid_from = 100, cp_valid_to = 130\<rparr>],
      customer_order_id_seq = 1\<rparr>"

text \<open>Customer 1 has checked out at time 50: order 1.\<close>

definition shop_db_ordered :: db where
  "shop_db_ordered = snd (place_order no_faults 1 ''12 Mill Lane'' 50 shop_db)"

text \<open>The catalog price of product 1 has then gone from 1000 to 1500.\<close>

definition shop_db_repriced :: db where
  "shop_db_repriced = snd (update_product no_faults 1 ''tea'' ''green'' 1500 1 12 shop_db_ordered)"

section \<open>The checkout transaction\<close>

lemma insert_order_items_Inr:
  "insert_order_items faults k orderId items d = Inr d' \<longleftrightarrow>
     (\<forall>i<length items. \<not> faults (k + i)) \<and>
     d' = d\<lparr>order_item := order_item d @ map (item_of orderId) items\<rparr>"
proof (induction items arbitrary: k d)
  case Nil
  show ?case by auto
next
  case (Cons it items)
  obtain p q where it: "it = (p, q)" by (cases it)
  show ?case
  proof (cases "faults k")
    case True
    then show ?thesis using it by auto
  next
    case False
    have "(\<forall>i<length (it # items). \<not> faults (k + i)) \<longleftrightarrow> (\<forall>i<length items. \<not> faults (Suc k + i))"
      using False by (auto simp: less_Suc_eq_0_disj)
    then show ?thesis using False it Cons.IH[of "Suc k"] by (simp add: item_of_def)
  qed
qed

lemma insert_order_items_Inl:
  "insert_order_items faults k orderId items d = Inl w \<Longrightarrow>
     (\<exists>i<length items. faults (k + i)) \<and> cart w = cart d \<and> customer_order w = customer_order d
     \<and> product w = product d \<and> coupon w = coupon d
     \<and> customer_order_id_seq w = customer_order_id_seq d"
proof (induction items arbitrary: k d)
  case Nil
  then show ?case by simp
next
  case (Cons it items)
  obtain p q where it: "it = (p, q)" by (cases it)
  show ?case
  proof (cases "faults k")
    case True
    then show ?thesis using it Cons.prems by auto
  next
    case False
    from Cons.prems it False
    have "insert_order_items faults (Suc k) orderId items
            (d\<lparr>order_item := order_item d @ [\<lparr>oi_order_id = orderId, oi_product_id = p, oi_quantity = q\<rparr>]\<rparr>) = Inl w"
      by simp
    from Cons.IH[OF this] show ?thesis by (auto intro: exI[of _ "Suc _"])
  qed
qed

lemma place_order_tx_ok:
  assumes "\<forall>k \<le> length (cart_lines uid d) + 4. \<not> faults k"
  shows "place_order_tx faults uid shippingAddress now d =
           Inr (customer_order_id_seq d, placed uid shippingAddress now d)"
proof -
  let ?d1 = "d\<lparr>customer_order := customer_order d @
                       [\<lparr>o_id = customer_order_id_seq d, o_customer_id = uid, o_status = ''Pending'',
                         o_shipping_address = shippingAddress, o_payment_method = None,
                         o_created_at = now\<rparr>],
                    customer_order_id_seq := customer_order_id_seq d + 1\<rparr>"
  let ?items = "map (\<lambda>r. (c_product_id r, c_quantity r)) (cart_lines uid d)"
  have lines: "cart_lines uid ?d1 = cart_lines uid d" by (simp add: cart_lines_def)
  have f: "\<not> faults 0" "\<not> faults 1" "\<not> faults 2"
    "\<not> faults (3 + length (cart_lines uid d))" "\<not> faults (4 + length (cart_lines uid d))"
    using assms by simp_all
  have "\<forall>i<length ?items. \<not> faults (3 + i)" using assms by simp
  then have loop: "insert_order_items faults 3 (customer_order_id_seq d) ?items ?d1 =
      Inr (?d1\<lparr>order_item := order_item ?d1 @ map (item_of (customer_order_id_seq d)) ?items\<rparr>)"
    by (simp add: insert_order_items_Inr)
  show ?thesis
    unfolding place_order_tx_def Let_def lines
    using f loop by (simp add: placed_def item_of_def comp_def)
qed

lemma place_order_tx_fault:
  assumes "k \<le> length (cart_lines uid d) + 4" "faults k"
  shows "\<exists>w. place_order_tx faults uid shippingAddress now d = Inl w"
proof (cases "place_order_tx faults uid shippingAddress now d")
  case (Inl w)
  then show ?thesis by blast
next
  case (Inr r)
  let ?d1 = "d\<lparr>customer_order := customer_order d @
                       [\<lparr>o_id = customer_order_id_seq d, o_customer_id = uid, o_status = ''Pending'',
                         o_shipping_address = shippingAddress, o_payment_method = None,
                         o_created_at = now\<rparr>],
                    customer_order_id_seq := customer_order_id_seq d + 1\<rparr>"
  let ?items = "map (\<lambda>r. (c_product_id r, c_quantity r)) (cart_lines uid d)"
  have lines: "cart_lines uid ?d1 = cart_lines uid d" by (simp add: cart_lines_def)
  from Inr have f: "\<not> faults 0" "\<not> faults 1" "\<not> faults 2"
    and rest: "(case insert_order_items faults 3 (customer_order_id_seq d) ?items ?d1 of
             Inl w \<Rightarrow> Inl w
           | Inr d2 \<Rightarrow>
               if faults (3 + length ?items) then Inl d2
               else
                 let d3 = d2\<lparr>cart := filter (\<lambda>r. c_customer_id r \<noteq> uid) (cart d2)\<rparr> in
                 if faults (4 + length ?items) then Inl d3
                 else Inr (customer_order_id_seq d, d3)) = Inr r"
    unfolding place_order_tx_def Let_def lines by (simp_all split: if_splits)
  from rest obtain d2 where d2: "insert_order_items faults 3 (customer_order_id_seq d) ?items ?d1 = Inr d2"
    by (cases "insert_order_items faults 3 (customer_order_id_seq d) ?items ?d1") simp_all
  then have loop: "\<forall>i<length ?items. \<not> faults (3 + i)"
    by (simp add: insert_order_items_Inr)
  from rest d2 have g: "\<not> faults (3 + length (cart_lines uid d))" "\<not> faults (4 + length (cart_lines uid d))"
    by (simp_all add: Let_def split: if_splits)
  have "\<not> faults k"
  proof -
    consider "k = 0" | "k = 1" | "k = 2" | "3 \<le> k \<and> k - 3 < length ?items"
      | "k = 3 + length (cart_lines uid d)" | "k = 4 + length (cart_lines uid d)"
      using assms(1) by fastforce
    then show ?thesis
    proof cases
      case 4
      then have "\<not> faults (3 + (k - 3))" using loop by blast
      then show ?thesis using 4 by simp
    qed (use f g in simp_all)
  qed
  with assms(2) show ?thesis by simp
qed

lemma place_order_tx_seq:
  assumes "place_order_tx faults uid shippingAddress now d = Inl w"
  shows "customer_order_id_seq d \<le> customer_order_id_seq w"
proof -
  let ?d1 = "d\<lparr>customer_order := customer_order d @
                       [\<lparr>o_id = customer_order_id_seq d, o_customer_id = uid, o_status = ''Pending'',
                         o_shipping_address = shippingAddress, o_payment_method = None,
                         o_created_at = now\<rparr>],
                    customer_order_id_seq := customer_order_id_seq d + 1\<rparr>"
  let ?items = "map (\<lambda>r. (c_product_id r, c_quantity r)) (cart_lines uid ?d1)"
  consider "w = d" | "w = ?d1"
    | "insert_order_items faults 3 (customer_order_id_seq d) ?items ?d1 = Inl w"
    | d2 where "insert_order_items faults 3 (customer_order_id_seq d) ?items ?d1 = Inr d2"
        "w = d2 \<or> w = d2\<lparr>cart := filter (\<lambda>r. c_customer_id r \<noteq> uid) (cart d2)\<rparr>"
    using assms unfolding place_order_tx_def Let_def
    by (auto split: if_splits sum.splits)
  then show ?thesis
  proof cases
    case 3
    from insert_order_items_Inl[OF this] show ?thesis by simp
  next
    case (4 d2)
    then have "customer_order_id_seq d2 = customer_order_id_seq ?d1"
      by (simp add: insert_order_items_Inr)
    then show ?thesis using 4(2) by auto
  qed simp_all
qed

lemma place_order_ok:
  assumes "\<forall>k \<le> length (cart_lines uid d) + 4. \<not> faults k"
  shows "place_order faults uid shippingAddress now d =
           (Success 201 (customer_order_id_seq d), placed uid shippingAddress now d)"
  by (simp add: place_order_def place_order_tx_ok[OF assms])

lemma place_order_fault:
  assumes "k \<le> length (cart_lines uid d) + 4" "faults k"
  shows "\<exists>w. place_order faults uid shippingAddress now d =
           (Failure 400 ''Error creating order'', rollback d w)
           \<and> customer_order_id_seq d \<le> customer_order_id_seq w"
proof -
  obtain w where w: "place_order_tx faults uid shippingAddress now d = Inl w"
    using place_order_tx_fault[where faults = faults and shippingAddress = shippingAddress
        and now = now, OF assms] by blast
  then show ?thesis using place_order_tx_seq[OF w] by (auto simp: place_order_def)
qed

lemma place_order_cases:
  obtains (committed) "\<forall>k \<le> length (cart_lines uid d) + 4. \<not> faults k"
      "place_order faults uid shippingAddress now d =
           (Success 201 (customer_order_id_seq d), placed uid shippingAddress now d)"
  | (rolled_back) k w where "k \<le> length (cart_lines uid d) + 4" "faults k"
      "place_order faults uid shippingAddress now d =
           (Failure 400 ''Error creating order'', rollback d w)"
      "customer_order_id_seq d \<le> customer_order_id_seq w"
proof (cases "\<forall>k \<le> length (cart_lines uid d) + 4. \<not> faults k")
  case True
  then show ?thesis using committed place_order_ok by blast
next
  case False
  then obtain k where "k \<le> length (cart_lines uid d) + 4" "faults k" by blast
  then show ?thesis using rolled_back place_order_fault by blast
qed

section \<open>Order lines once written\<close>

lemma step_order_item:
  "order_item (step fr d) = order_item d \<and> customer_order_id_seq d \<le> customer_order_id_seq (step fr d)
   \<or> (\<exists>faults uid a n. fr = (faults, PlaceOrder uid a n) \<and> step fr d = placed uid a n d)"
proof (cases fr)
  case (Pair faults req)
  show ?thesis
  proof (cases req)
    case (PlaceOrder uid a n)
    show ?thesis
    proof (cases rule: place_order_cases[where faults = faults and uid = uid and d = d
        and shippingAddress = a and now = n])
      case committed
      then show ?thesis using Pair PlaceOrder by simp
    next
      case (rolled_back k w)
      then show ?thesis using Pair PlaceOrder by (simp add: rollback_def)
    qed
  qed (simp_all add: Pair add_to_cart_def remove_from_cart_def update_cart_quantity_def clear_cart_def
        pay_def set_order_status_def update_product_def Let_def split: list.splits)
qed

lemma placed_lines:
  assumes "ids_below_seq d"
  shows "order_lines (customer_order_id_seq d) (placed uid a n d) =
           map (\<lambda>r. (c_product_id r, c_quantity r)) (cart_lines uid d)"
proof -
  have "filter (\<lambda>oi. oi_order_id oi = customer_order_id_seq d) (order_item d) = []"
    using assms by (auto simp: ids_below_seq_def filter_empty_conv)
  then show ?thesis by (simp add: order_lines_def placed_def comp_def)
qed

lemma placed_keeps_lines:
  assumes "orderId < customer_order_id_seq d"
  shows "order_lines orderId (placed uid a n d) = order_lines orderId d"
  using assms by (simp add: order_lines_def placed_def)

lemma placed_inv: "ids_below_seq d \<Longrightarrow> ids_below_seq (placed uid a n d)"
  by (fastforce simp: ids_below_seq_def placed_def)

lemma step_customer_order_ids:
  "map o_id (customer_order (step fr d)) = map o_id (customer_order d)
   \<or> (\<exists>faults uid a n. fr = (faults, PlaceOrder uid a n) \<and> step fr d = placed uid a n d)"
proof (cases fr)
  case (Pair faults req)
  have m: "\<And>f g. (\<And>co. o_id (f co) = o_id co) \<Longrightarrow>
     map o_id (map (\<lambda>co. if g co then f co else co) (customer_order d)) = map o_id (customer_order d)"
    by simp
  show ?thesis
  proof (cases req)
    case (PlaceOrder uid a n)
    show ?thesis
    proof (cases rule: place_order_cases[where faults = faults and uid = uid and d = d
        and shippingAddress = a and now = n])
      case committed
      then show ?thesis using Pair PlaceOrder by simp
    next
      case (rolled_back k w)
      then show ?thesis using Pair PlaceOrder by (simp add: rollback_def)
    qed
  next
    case (Pay uid orderId pm)
    show ?thesis using Pair Pay m[of "\<lambda>co. co\<lparr>o_status := ''Paid'', o_payment_method := Some pm\<rparr>" "\<lambda>co. o_id co = orderId"]
      by (simp add: pay_def split: list.splits)
  next
    case (SetOrderStatus orderId st)
    show ?thesis using Pair SetOrderStatus m[of "\<lambda>co. co\<lparr>o_status := st\<rparr>" "\<lambda>co. o_id co = orderId"]
      by (simp add: set_order_status_def Let_def split: list.splits)
  qed (simp_all add: Pair add_to_cart_def remove_from_cart_def update_cart_quantity_def clear_cart_def
        update_product_def Let_def split: list.splits)
qed

lemma step_inv:
  assumes "ids_below_seq d"
  shows "ids_below_seq (step fr d)"
proof -
  from step_order_item[of fr d] step_customer_order_ids[of fr d]
  consider (same) "order_item (step fr d) = order_item d"
      "customer_order_id_seq d \<le> customer_order_id_seq (step fr d)"
      "map o_id (customer_order (step fr d)) = map o_id (customer_order d)"
    | (placed) uid a n where "step fr d = placed uid a n d"
    by blast
  then show ?thesis
  proof cases
    case same
    have "\<forall>i \<in> set (map o_id (customer_order (step fr d))). i < customer_order_id_seq (step fr d)"
      unfolding same(3) using assms same(2) by (fastforce simp: ids_below_seq_def)
    moreover have "\<forall>oi \<in> set (order_item (step fr d)). oi_order_id oi < customer_order_id_seq (step fr d)"
      unfolding same(1) using assms same(2) by (fastforce simp: ids_below_seq_def)
    ultimately show ?thesis by (simp add: ids_below_seq_def)
  next
    case placed
    then show ?thesis using placed_inv[OF assms] by simp
  qed
qed

lemma step_keeps_lines:
  assumes "orderId < customer_order_id_seq d"
  shows "order_lines orderId (step fr d) = order_lines orderId d
         \<and> orderId < customer_order_id_seq (step fr d)"
proof -
  from step_order_item[of fr d]
  consider (same) "order_item (step fr d) = order_item d"
      "customer_order_id_seq d \<le> customer_order_id_seq (step fr d)"
    | (placed) uid a n where "step fr d = placed uid a n d"
    by blast
  then show ?thesis
  proof cases
    case same
    then show ?thesis using assms by (simp add: order_lines_def)
  next
    case placed
    then show ?thesis using placed_keeps_lines[OF assms] assms by (simp add: placed_def)
  qed
qed

lemma run_keeps_lines:
  "orderId < customer_order_id_seq d \<Longrightarrow> order_lines orderId (run reqs d) = order_lines orderId d"
  unfolding run_def
proof (induction reqs arbitrary: d)
  case Nil
  show ?case by simp
next
  case (Cons fr reqs)
  from step_keeps_lines[OF Cons.prems, of fr] Cons.IH[of "step fr d"]
  show ?case by simp
qed

lemma run_inv: "ids_below_seq d \<Longrightarrow> ids_below_seq (run reqs d)"
  unfolding run_def by (induction reqs arbitrary: d) (simp_all add: step_inv)

lemma step_keeps_order:
  assumes "orderId \<in> set (map o_id (customer_order d))"
  shows "orderId \<in> set (map o_id (customer_order (step fr d)))"
proof -
  from step_customer_order_ids[of fr d]
  consider (same) "map o_id (customer_order (step fr d)) = map o_id (customer_order d)"
    | (placed) uid a n where "step fr d = placed uid a n d"
    by blast
  then show ?thesis
  proof cases
    case same
    then show ?thesis using assms by simp
  next
    case placed
    then show ?thesis using assms by (simp add: placed_def)
  qed
qed

lemma run_keeps_order:
  "orderId \<in> set (map o_id (customer_order d)) \<Longrightarrow>
   orderId \<in> set (map o_id (customer_order (run reqs d)))"
  unfolding run_def
proof (induction reqs arbitrary: d)
  case Nil
  then show ?case by simp
next
  case (Cons fr reqs)
  from Cons.IH[OF step_keeps_order[OF Cons.prems, of fr]] show ?case by simp
qed

section \<open>The example store\<close>

lemma shop_db_checkout:
  "place_order no_faults 1 ''12 Mill Lane'' 50 shop_db = (Success 201 1, shop_db_ordered)"
proof -
  have "\<forall>k \<le> length (cart_lines 1 shop_db) + 4. \<not> no_faults k" by (simp add: no_faults_def)
  from place_order_ok[OF this, of "''12 Mill Lane''" 50]
  show ?thesis by (simp add: shop_db_ordered_def) (simp add: shop_db_def)
qed

lemma shop_db_ordered_tables:
  "cart shop_db_ordered = [\<lparr>c_customer_id = 2, c_product_id = 1, c_quantity = 5\<rparr>]"
  "customer_order shop_db_ordered =
     [\<lparr>o_id = 1, o_customer_id = 1, o_status = ''Pending'', o_shipping_address = ''12 Mill Lane'',
       o_payment_method = None, o_created_at = 50\<rparr>]"
  "order_item shop_db_ordered =
     [\<lparr>oi_order_id = 1, oi_product_id = 1, oi_quantity = 2\<rparr>,
      \<lparr>oi_order_id = 1, oi_product_id = 2, oi_quantity = 1\<rparr>]"
  "product shop_db_ordered = product shop_db"
  "coupon shop_db_ordered = coupon shop_db"
  "customer_order_id_seq shop_db_ordered = 2"
proof -
  have "\<forall>k \<le> length (cart_lines 1 shop_db) + 4. \<not> no_faults k" by (simp add: no_faults_def)
  from place_order_ok[OF this, of "''12 Mill Lane''" 50]
  have eq: "shop_db_ordered = placed 1 ''12 Mill Lane'' 50 shop_db"
    by (simp add: shop_db_ordered_def)
  show "cart shop_db_ordered = [\<lparr>c_customer_id = 2, c_product_id = 1, c_quantity = 5\<rparr>]"
    by (simp add: eq placed_def shop_db_def)
  show "customer_order shop_db_ordered =
     [\<lparr>o_id = 1, o_customer_id = 1, o_status = ''Pending'', o_shipping_address = ''12 Mill Lane'',
       o_payment_method = None, o_created_at = 50\<rparr>]"
    by (simp add: eq placed_def shop_db_def)
  show "order_item shop_db_ordered =
     [\<lparr>oi_order_id = 1, oi_product_id = 1, oi_quantity = 2\<rparr>,
      \<lparr>oi_order_id = 1, oi_product_id = 2, oi_quantity = 1\<rparr>]"
    by (simp add: eq placed_def shop_db_def cart_lines_def)
  show "product shop_db_ordered = product shop_db" by (simp add: eq placed_def)
  show "coupon shop_db_ordered = coupon shop_db" by (simp add: eq placed_def)
  show "customer_order_id_seq shop_db_ordered = 2" by (simp add: eq placed_def shop_db_def)
qed

section \<open>Checkout: atomicity, cart clearing, line fidelity\<close>

text \<open>
  Claim C1. A run of \<^verbatim>\<open>app.post('/orders')\<close> ends in one of two ways. Either some
  statement of the transaction raised (any of \<^verbatim>\<open>BEGIN\<close>, the header insert, the cart
  read, one of the item inserts, the cart delete, \<^verbatim>\<open>COMMIT\<close>): then the answer is
  400 and \<^verbatim>\<open>customer_order\<close>, \<^verbatim>\<open>order_item\<close> and \<^verbatim>\<open>cart\<close> are as they were
  before the call, so no order header, no order line and no partial clear remain. Or none
  raised and the answer is 201 with the new order's id. This holds for every cart and
  for every statement that can raise.
\<close>

theorem place_order_atomic:
  assumes "place_order faults uid shippingAddress now d = (r, d')"
  shows "(r = Failure 400 ''Error creating order''
            \<and> (\<exists>k \<le> length (cart_lines uid d) + 4. faults k)
            \<and> customer_order d' = customer_order d \<and> order_item d' = order_item d
            \<and> cart d' = cart d)
         \<or> (r = Success 201 (customer_order_id_seq d)
            \<and> (\<forall>k \<le> length (cart_lines uid d) + 4. \<not> faults k))"
proof (cases rule: place_order_cases[where faults = faults and uid = uid and d = d
        and shippingAddress = shippingAddress and now = now])
  case committed
  then show ?thesis using assms by simp
next
  case (rolled_back k w)
  then have "r = Failure 400 ''Error creating order''" "d' = rollback d w"
    using assms by simp_all
  then show ?thesis using rolled_back(1,2) by (auto simp: rollback_def)
qed

text \<open>
  Customer 1 of the example store checks out and the second item insert (statement 4)
  raises, after the header and the first item were written to the working copy.
\<close>

theorem place_order_atomic_witness:
  "fst (place_order (\<lambda>k. k = 4) 1 ''12 Mill Lane'' 50 shop_db) = Failure 400 ''Error creating order''
   \<and> customer_order (snd (place_order (\<lambda>k. k = 4) 1 ''12 Mill Lane'' 50 shop_db)) = []
   \<and> order_item (snd (place_order (\<lambda>k. k = 4) 1 ''12 Mill Lane'' 50 shop_db)) = []
   \<and> cart (snd (place_order (\<lambda>k. k = 4) 1 ''12 Mill Lane'' 50 shop_db)) = cart shop_db"
proof -
  obtain r d' where run: "place_order (\<lambda>k. k = 4) 1 ''12 Mill Lane'' 50 shop_db = (r, d')"
    by (cases "place_order (\<lambda>k. k = 4) 1 ''12 Mill Lane'' 50 shop_db")
  have "\<not> (\<forall>k \<le> length (cart_lines 1 shop_db) + 4. \<not> (\<lambda>k. k = 4) k)"
    by simp
  with place_order_atomic[OF run]
  have "r = Failure 400 ''Error creating order'' \<and> customer_order d' = customer_order shop_db
      \<and> order_item d' = order_item shop_db \<and> cart d' = cart shop_db"
    by blast
  then show ?thesis by (simp add: run) (simp add: shop_db_def)
qed

text \<open>
  Claim C5. After a run of \<^verbatim>\<open>app.post('/orders')\<close> for customer \<open>uid\<close> that answered
  with success, the customer has no cart row left, and \<^verbatim>\<open>app.get('/cart')\<close> returns
  the empty list.
\<close>

theorem place_order_clears_cart:
  assumes "place_order faults uid shippingAddress now d = (Success c orderId, d')"
  shows "cart_lines uid d' = [] \<and> get_cart no_faults uid d' = Success 200 []"
proof (cases rule: place_order_cases[where faults = faults and uid = uid and d = d
        and shippingAddress = shippingAddress and now = now])
  case committed
  then have "d' = placed uid shippingAddress now d" using assms by simp
  then have "cart_lines uid d' = []" by (simp add: placed_def cart_lines_def)
  then show ?thesis by (simp add: get_cart_def no_faults_def)
next
  case (rolled_back k w)
  then show ?thesis using assms by simp
qed

theorem place_order_clears_cart_witness:
  "cart_lines 1 shop_db \<noteq> [] \<and> cart_lines 1 shop_db_ordered = []
   \<and> get_cart no_faults 1 shop_db_ordered = Success 200 []"
  using place_order_clears_cart[OF shop_db_checkout] by (simp add: shop_db_def cart_lines_def)

text \<open>
  Claim C6. In a store whose ids lie below the sequence, a successful run of
  \<^verbatim>\<open>app.post('/orders')\<close> has appended to \<^verbatim>\<open>customer_order\<close> the header of a new
  order of the customer, with the returned id, status \<^verbatim>\<open>Pending\<close> and the shipping
  address of the request, and it is the only order with that id. Under that id it leaves
  one \<^verbatim>\<open>order_item\<close> row per cart row of the customer, with the same product ids and
  quantities in the same order. No later sequence of requests, whatever their faults,
  changes the rows of that order or removes the order.
\<close>

theorem place_order_line_fidelity:
  assumes "ids_below_seq d"
    and "place_order faults uid shippingAddress now d = (Success c orderId, d')"
  shows "customer_order d' = customer_order d @
           [\<lparr>o_id = orderId, o_customer_id = uid, o_status = ''Pending'',
             o_shipping_address = shippingAddress, o_payment_method = None,
             o_created_at = now\<rparr>]
         \<and> filter (\<lambda>co. o_id co = orderId) (customer_order d') =
           [\<lparr>o_id = orderId, o_customer_id = uid, o_status = ''Pending'',
             o_shipping_address = shippingAddress, o_payment_method = None,
             o_created_at = now\<rparr>]
         \<and> order_lines orderId d' = map (\<lambda>r. (c_product_id r, c_quantity r)) (cart_lines uid d)
         \<and> (\<forall>reqs. order_lines orderId (run reqs d') = order_lines orderId d'
                   \<and> orderId \<in> set (map o_id (customer_order (run reqs d'))))"
proof (cases rule: place_order_cases[where faults = faults and uid = uid and d = d
        and shippingAddress = shippingAddress and now = now])
  case committed
  then have eq: "orderId = customer_order_id_seq d" "d' = placed uid shippingAddress now d"
    using assms(2) by simp_all
  let ?h = "\<lparr>o_id = orderId, o_customer_id = uid, o_status = ''Pending'',
             o_shipping_address = shippingAddress, o_payment_method = None,
             o_created_at = now\<rparr>"
  have hd: "customer_order d' = customer_order d @ [?h]" by (simp add: eq placed_def)
  have "filter (\<lambda>co. o_id co = orderId) (customer_order d) = []"
    using assms(1) by (auto simp: ids_below_seq_def eq filter_empty_conv)
  then have one: "filter (\<lambda>co. o_id co = orderId) (customer_order d') = [?h]"
    unfolding hd by simp
  have lines: "order_lines orderId d' = map (\<lambda>r. (c_product_id r, c_quantity r)) (cart_lines uid d)"
    using placed_lines[OF assms(1)] eq by simp
  have below: "orderId < customer_order_id_seq d'" by (simp add: eq placed_def)
  have "orderId \<in> set (map o_id (customer_order d'))" unfolding hd by simp
  then have later: "order_lines orderId (run reqs d') = order_lines orderId d'
                   \<and> orderId \<in> set (map o_id (customer_order (run reqs d')))" for reqs
    using run_keeps_lines[OF below] run_keeps_order by blast
  show ?thesis using hd one lines later by blast
next
  case (rolled_back k w)
  then show ?thesis using assms(2) by simp
qed

theorem place_order_line_fidelity_witness:
  "ids_below_seq shop_db
   \<and> customer_order shop_db_ordered =
       [\<lparr>o_id = 1, o_customer_id = 1, o_status = ''Pending'', o_shipping_address = ''12 Mill Lane'',
         o_payment_method = None, o_created_at = 50\<rparr>]
   \<and> order_lines 1 shop_db_ordered = [(1, 2), (2, 1)]
   \<and> order_lines 1 (run [(no_faults, AddToCart 1 3 1), (no_faults, PlaceOrder 1 ''12 Mill Lane'' 60),
                          (no_faults, PlaceOrder 2 ''3 High Street'' 61)] shop_db_ordered) = [(1, 2), (2, 1)]"
proof -
  have inv: "ids_below_seq shop_db" by (simp add: ids_below_seq_def shop_db_def)
  from place_order_line_fidelity[OF inv shop_db_checkout]
  have "customer_order shop_db_ordered = customer_order shop_db @
           [\<lparr>o_id = 1, o_customer_id = 1, o_status = ''Pending'',
             o_shipping_address = ''12 Mill Lane'', o_payment_method = None,
             o_created_at = 50\<rparr>]"
    and "order_lines 1 shop_db_ordered = map (\<lambda>r. (c_product_id r, c_quantity r)) (cart_lines 1 shop_db)"
    and "\<And>reqs. order_lines 1 (run reqs shop_db_ordered) = order_lines 1 shop_db_ordered"
    by simp_all
  then show ?thesis using inv by (simp add: shop_db_def cart_lines_def)
qed

section \<open>Checkout with an empty cart\<close>

text \<open>
  Claim C2, as stated, fails: the handler never looks at the number of cart rows.
  Customer 3 of the example store has no cart row, and the checkout answers 201 and
  leaves an order header behind.
\<close>

theorem place_order_empty_cart_counterexample:
  "cart_lines 3 shop_db = []
   \<and> place_order no_faults 3 ''3 High Street'' 50 shop_db =
       (Success 201 1,
        shop_db\<lparr>customer_order :=
                   [\<lparr>o_id = 1, o_customer_id = 3, o_status = ''Pending'',
                     o_shipping_address = ''3 High Street'', o_payment_method = None,
                     o_created_at = 50\<rparr>],
                 customer_order_id_seq := 2\<rparr>)"
proof -
  have e: "cart_lines 3 shop_db = []" by (simp add: cart_lines_def shop_db_def)
  have "\<forall>k \<le> length (cart_lines 3 shop_db) + 4. \<not> no_faults k" by (simp add: no_faults_def)
  from place_order_ok[OF this, of "''3 High Street''" 50]
  show ?thesis using e by (simp add: placed_def) (simp add: shop_db_def)
qed

text \<open>
  Claim C2, amended. \<^verbatim>\<open>app.post('/orders')\<close> never fails because the cart is empty.
  Whatever the cart holds, when none of its statements raises it answers 201 and has
  appended an order header with status \<^verbatim>\<open>Pending\<close> and one order line per cart row,
  so none for a customer without cart rows; otherwise it answers 400 and neither
  \<^verbatim>\<open>customer_order\<close> nor \<^verbatim>\<open>order_item\<close> has changed.
\<close>

theorem place_order_empty_cart:
  assumes "place_order faults uid shippingAddress now d = (r, d')"
  shows "(r = Success 201 (customer_order_id_seq d)
            \<and> (\<forall>k \<le> length (cart_lines uid d) + 4. \<not> faults k)
            \<and> customer_order d' = customer_order d @
                 [\<lparr>o_id = customer_order_id_seq d, o_customer_id = uid, o_status = ''Pending'',
                   o_shipping_address = shippingAddress, o_payment_method = None,
                   o_created_at = now\<rparr>]
            \<and> order_item d' = order_item d @
                 map (\<lambda>r. \<lparr>oi_order_id = customer_order_id_seq d, oi_product_id = c_product_id r,
                            oi_quantity = c_quantity r\<rparr>) (cart_lines uid d)
            \<and> (cart_lines uid d = [] \<longrightarrow> order_item d' = order_item d))
         \<or> (r = Failure 400 ''Error creating order''
            \<and> (\<exists>k \<le> length (cart_lines uid d) + 4. faults k)
            \<and> customer_order d' = customer_order d \<and> order_item d' = order_item d)"
proof (cases rule: place_order_cases[where faults = faults and uid = uid and d = d
        and shippingAddress = shippingAddress and now = now])
  case committed
  then have "r = Success 201 (customer_order_id_seq d)" "d' = placed uid shippingAddress now d"
    using assms by simp_all
  then show ?thesis using committed(1) by (simp add: placed_def)
next
  case (rolled_back k w)
  then have "r = Failure 400 ''Error creating order''" "d' = rollback d w"
    using assms by simp_all
  then show ?thesis using rolled_back(1,2) by (auto simp: rollback_def)
qed

theorem place_order_empty_cart_witness:
  "cart_lines 3 shop_db = []
   \<and> fst (place_order no_faults 3 ''3 High Street'' 50 shop_db) = Success 201 1
   \<and> map o_status (customer_order (snd (place_order no_faults 3 ''3 High Street'' 50 shop_db))) = [''Pending'']
   \<and> order_item (snd (place_order no_faults 3 ''3 High Street'' 50 shop_db)) = []"
proof -
  have e: "cart_lines 3 shop_db = []" by (simp add: cart_lines_def shop_db_def)
  obtain r d' where run: "place_order no_faults 3 ''3 High Street'' 50 shop_db = (r, d')"
    by (cases "place_order no_faults 3 ''3 High Street'' 50 shop_db")
  have "\<not> (\<exists>k \<le> length (cart_lines 3 shop_db) + 4. no_faults k)" by (simp add: no_faults_def)
  with place_order_empty_cart[OF run] e
  have "r = Success 201 (customer_order_id_seq shop_db)
     \<and> customer_order d' = customer_order shop_db @
                 [\<lparr>o_id = customer_order_id_seq shop_db, o_customer_id = 3, o_status = ''Pending'',
                   o_shipping_address = ''3 High Street'', o_payment_method = None,
                   o_created_at = 50\<rparr>]
     \<and> order_item d' = order_item shop_db"
    by blast
  then show ?thesis using e by (simp add: run) (simp add: shop_db_def)
qed

section \<open>Prices of placed orders\<close>

lemma shop_db_repriced_tables:
  "customer_order shop_db_repriced = customer_order shop_db_ordered"
  "order_item shop_db_repriced = order_item shop_db_ordered"
  "product shop_db_repriced =
     [\<lparr>p_id = 1, p_name = ''tea'', p_description = ''green'', p_price = 1500,
       p_category_id = 1, p_stock_quantity = 12\<rparr>,
      \<lparr>p_id = 2, p_name = ''mug'', p_description = ''blue'', p_price = 500,
       p_category_id = 2, p_stock_quantity = 3\<rparr>,
      \<lparr>p_id = 3, p_name = ''pot'', p_description = ''iron'', p_price = 2500,
       p_category_id = 2, p_stock_quantity = 10\<rparr>,
      \<lparr>p_id = 4, p_name = ''cup'', p_description = ''small'', p_price = 300,
       p_category_id = 2, p_stock_quantity = 0\<rparr>]"
  by (simp_all add: shop_db_repriced_def update_product_def no_faults_def Let_def
      shop_db_ordered_tables shop_db_def split: list.splits)

text \<open>
  Claim C3. \<^verbatim>\<open>order_item\<close> rows are written without a price, and
  \<^verbatim>\<open>app.get('/orders/:orderId')\<close> reads \<^verbatim>\<open>p.price\<close> from the product table. Order 1
  of the example store was placed when product 1 cost 1000; once the catalog price is
  1500 the same order is reported at 1500.
\<close>

theorem get_order_reports_catalog_price:
  "get_order no_faults 1 1 shop_db_ordered =
     Success 200
       (\<lparr>o_id = 1, o_customer_id = 1, o_status = ''Pending'', o_shipping_address = ''12 Mill Lane'',
         o_payment_method = None, o_created_at = 50\<rparr>,
        [\<lparr>v_order_id = 1, v_product_id = 1, v_quantity = 2, v_name = ''tea'', v_price = 1000\<rparr>,
         \<lparr>v_order_id = 1, v_product_id = 2, v_quantity = 1, v_name = ''mug'', v_price = 500\<rparr>])
   \<and> get_order no_faults 1 1 shop_db_repriced =
     Success 200
       (\<lparr>o_id = 1, o_customer_id = 1, o_status = ''Pending'', o_shipping_address = ''12 Mill Lane'',
         o_payment_method = None, o_created_at = 50\<rparr>,
        [\<lparr>v_order_id = 1, v_product_id = 1, v_quantity = 2, v_name = ''tea'', v_price = 1500\<rparr>,
         \<lparr>v_order_id = 1, v_product_id = 2, v_quantity = 1, v_name = ''mug'', v_price = 500\<rparr>])"
  by (simp add: get_order_def no_faults_def order_items_joined_def shop_db_repriced_tables
      shop_db_ordered_tables) (simp add: shop_db_def)

section \<open>Payment\<close>

text \<open>
  Claim C4, as stated, fails: the \<^verbatim>\<open>UPDATE\<close> of the pay handler has no condition on
  the status. Order 1 of the example store is paid by card, then paid again by paypal:
  the second call answers 200 and the recorded payment method is replaced.
\<close>

theorem pay_twice_counterexample:
  "customer_order (snd (pay no_faults 1 1 ''card'' shop_db_ordered)) =
     [\<lparr>o_id = 1, o_customer_id = 1, o_status = ''Paid'', o_shipping_address = ''12 Mill Lane'',
       o_payment_method = Some ''card'', o_created_at = 50\<rparr>]
   \<and> fst (pay no_faults 1 1 ''paypal'' (snd (pay no_faults 1 1 ''card'' shop_db_ordered))) =
       Success 200 ''Payment processed successfully''
   \<and> customer_order (snd (pay no_faults 1 1 ''paypal'' (snd (pay no_faults 1 1 ''card'' shop_db_ordered)))) =
     [\<lparr>o_id = 1, o_customer_id = 1, o_status = ''Paid'', o_shipping_address = ''12 Mill Lane'',
       o_payment_method = Some ''paypal'', o_created_at = 50\<rparr>]"
  by (simp add: pay_def no_faults_def shop_db_ordered_tables)

text \<open>
  Claim C4, amended. \<^verbatim>\<open>app.post('/orders/:orderId/pay')\<close> ends in one of three
  ways. When an order with that id belongs to the customer and no statement raises, it
  answers 200 whatever the status was: every row with that id has status \<^verbatim>\<open>Paid\<close> and
  the payment method of this call, the other orders are untouched. When no such order
  belongs to the customer it answers 404, and when a statement raises 500; in both
  cases the store is unchanged.
\<close>

theorem pay_any_status:
  assumes "pay faults uid orderId paymentMethod d = (r, d')"
  shows "(r = Success 200 ''Payment processed successfully''
            \<and> list_ex (owned_by uid orderId) (customer_order d)
            \<and> \<not> faults 0 \<and> \<not> faults 1
            \<and> map o_status (filter (\<lambda>co. o_id co = orderId) (customer_order d')) =
                map (\<lambda>co. ''Paid'') (filter (\<lambda>co. o_id co = orderId) (customer_order d))
            \<and> map o_payment_method (filter (\<lambda>co. o_id co = orderId) (customer_order d')) =
                map (\<lambda>co. Some paymentMethod) (filter (\<lambda>co. o_id co = orderId) (customer_order d))
            \<and> filter (\<lambda>co. o_id co \<noteq> orderId) (customer_order d') =
                filter (\<lambda>co. o_id co \<noteq> orderId) (customer_order d))
         \<or> (r = Failure 404 ''Order not found''
            \<and> \<not> list_ex (owned_by uid orderId) (customer_order d) \<and> d' = d)
         \<or> (r = Failure 500 ''Error processing payment'' \<and> (faults 0 \<or> faults 1) \<and> d' = d)"
proof -
  let ?P = "\<lambda>co. o_id co = orderId \<and> o_customer_id co = uid"
  let ?upd = "\<lambda>co. if o_id co = orderId
                    then co\<lparr>o_status := ''Paid'', o_payment_method := Some paymentMethod\<rparr> else co"
  have ex: "list_ex (owned_by uid orderId) (customer_order d) \<longleftrightarrow> filter ?P (customer_order d) \<noteq> []"
    by (auto simp: list_ex_iff owned_by_def filter_empty_conv)
  have st: "map o_status (filter (\<lambda>co. o_id co = orderId) (map ?upd xs)) =
            map (\<lambda>co. ''Paid'') (filter (\<lambda>co. o_id co = orderId) xs)" for xs :: "order_row list"
    by (induction xs) auto
  have pm: "map o_payment_method (filter (\<lambda>co. o_id co = orderId) (map ?upd xs)) =
            map (\<lambda>co. Some paymentMethod) (filter (\<lambda>co. o_id co = orderId) xs)" for xs :: "order_row list"
    by (induction xs) auto
  have others: "filter (\<lambda>co. o_id co \<noteq> orderId) (map ?upd xs) = filter (\<lambda>co. o_id co \<noteq> orderId) xs" for xs :: "order_row list"
    by (induction xs) auto
  show ?thesis
  proof (cases "faults 0")
    case True
    then show ?thesis using assms by (simp add: pay_def)
  next
    case f0: False
    show ?thesis
    proof (cases "filter ?P (customer_order d)")
      case Nil
      then show ?thesis using assms f0 ex by (simp add: pay_def)
    next
      case (Cons a as)
      show ?thesis
      proof (cases "faults 1")
        case True
        then show ?thesis using assms f0 Cons by (simp add: pay_def)
      next
        case False
        then have r: "r = Success 200 ''Payment processed successfully''"
          and co: "customer_order d' = map ?upd (customer_order d)"
          using assms f0 Cons by (auto simp: pay_def)
        have own: "list_ex (owned_by uid orderId) (customer_order d)"
          using ex Cons by simp
        have A: "map o_status (filter (\<lambda>co. o_id co = orderId) (customer_order d')) =
                map (\<lambda>co. ''Paid'') (filter (\<lambda>co. o_id co = orderId) (customer_order d))"
          unfolding co by (rule st)
        have B: "map o_payment_method (filter (\<lambda>co. o_id co = orderId) (customer_order d')) =
                map (\<lambda>co. Some paymentMethod) (filter (\<lambda>co. o_id co = orderId) (customer_order d))"
          unfolding co by (rule pm)
        have C: "filter (\<lambda>co. o_id co \<noteq> orderId) (customer_order d') =
                filter (\<lambda>co. o_id co \<noteq> orderId) (customer_order d)"
          unfolding co by (rule others)
        show ?thesis using r own f0 False A B C by blast
      qed
    qed
  qed
qed

theorem pay_any_status_witness:
  "map o_status (customer_order (snd (pay no_faults 1 1 ''card'' shop_db_ordered))) = [''Paid'']
   \<and> fst (pay no_faults 1 1 ''paypal'' (snd (pay no_faults 1 1 ''card'' shop_db_ordered))) =
       Success 200 ''Payment processed successfully''
   \<and> map o_payment_method
         (filter (\<lambda>co. o_id co = 1)
            (customer_order (snd (pay no_faults 1 1 ''paypal'' (snd (pay no_faults 1 1 ''card'' shop_db_ordered))))))
       = [Some ''paypal'']"
proof -
  let ?d1 = "snd (pay no_faults 1 1 ''card'' shop_db_ordered)"
  have d1: "customer_order ?d1 =
     [\<lparr>o_id = 1, o_customer_id = 1, o_status = ''Paid'', o_shipping_address = ''12 Mill Lane'',
       o_payment_method = Some ''card'', o_created_at = 50\<rparr>]"
    by (simp add: pay_def no_faults_def shop_db_ordered_tables)
  obtain r d' where run: "pay no_faults 1 1 ''paypal'' ?d1 = (r, d')"
    by (cases "pay no_faults 1 1 ''paypal'' ?d1")
  have own: "list_ex (owned_by 1 1) (customer_order ?d1)" by (simp add: d1 owned_by_def)
  have nf: "\<not> (no_faults 0 \<or> no_faults 1)" by (simp add: no_faults_def)
  from pay_any_status[OF run] own nf
  have "r = Success 200 ''Payment processed successfully''
      \<and> map o_payment_method (filter (\<lambda>co. o_id co = 1) (customer_order d')) =
                map (\<lambda>co. Some ''paypal'') (filter (\<lambda>co. o_id co = 1) (customer_order ?d1))"
    by blast
  then show ?thesis by (simp add: run) (simp add: d1)
qed

section \<open>Coupons\<close>

lemma filter_unique_key:
  assumes "distinct (map f xs)" "x \<in> set xs"
  shows "filter (\<lambda>y. f y = f x \<and> P y) xs = (if P x then [x] else [])"
  using assms
proof (induction xs)
  case Nil
  then show ?case by simp
next
  case (Cons a xs)
  show ?case
  proof (cases "a = x")
    case True
    then have "f x \<notin> f ` set xs" using Cons.prems(1) by simp
    then have "\<forall>y \<in> set xs. f y \<noteq> f x" by (metis imageI)
    then have "filter (\<lambda>y. f y = f x \<and> P y) xs = []"
      by (simp add: filter_empty_conv)
    then show ?thesis using True by simp
  next
    case False
    then have x: "x \<in> set xs" using Cons.prems(2) by simp
    then have "f a \<noteq> f x" using Cons.prems(1) by force
    then show ?thesis using Cons.IH Cons.prems(1) x by simp
  qed
qed

text \<open>
  Claim C7. With coupon codes unique and the query not raising,
  \<^verbatim>\<open>app.post('/apply-coupon')\<close> answers 200 with a discount exactly when the table
  holds a coupon of that code whose window contains the date, both ends included, and
  the discount is that coupon's; it answers 404 exactly when no coupon has the code or
  the date lies before \<^verbatim>\<open>valid_from\<close> or after \<^verbatim>\<open>valid_to\<close>.
\<close>

theorem apply_coupon_window:
  assumes "distinct (map cp_code (coupon d))" and "\<not> faults 0"
  shows "(apply_coupon faults code asOf d = Success 200 pct \<longleftrightarrow>
            (\<exists>c \<in> set (coupon d). cp_code c = code \<and> coupon_valid_on asOf c
                                   \<and> cp_discount_percent c = pct))
         \<and> (apply_coupon faults code asOf d = Failure 404 ''Invalid or expired coupon'' \<longleftrightarrow>
            (code \<notin> cp_code ` set (coupon d)
             \<or> (\<exists>c \<in> set (coupon d). cp_code c = code
                    \<and> (asOf < cp_valid_from c \<or> cp_valid_to c < asOf))))"
proof (cases "code \<in> cp_code ` set (coupon d)")
  case False
  then have none: "\<forall>c \<in> set (coupon d). cp_code c \<noteq> code" by blast
  then have "filter (\<lambda>c. cp_code c = code \<and> cp_valid_from c \<le> asOf \<and> cp_valid_to c \<ge> asOf) (coupon d) = []"
    by (simp add: filter_empty_conv)
  then have r: "apply_coupon faults code asOf d = Failure 404 ''Invalid or expired coupon''"
    using assms(2) by (simp add: apply_coupon_def)
  have "\<not> (\<exists>c \<in> set (coupon d). cp_code c = code \<and> coupon_valid_on asOf c
                                   \<and> cp_discount_percent c = pct)"
    using none by blast
  then show ?thesis using r False by simp
next
  case True
  then obtain c where c: "c \<in> set (coupon d)" "cp_code c = code" by blast
  have inj: "inj_on cp_code (set (coupon d))"
    using assms(1) by (simp add: distinct_map)
  have uniq: "c' = c" if "c' \<in> set (coupon d)" "cp_code c' = code" for c'
    using inj that c by (simp add: inj_on_def)
  from filter_unique_key[OF assms(1) c(1), of "\<lambda>c. cp_valid_from c \<le> asOf \<and> cp_valid_to c \<ge> asOf"] c(2)
  have f: "filter (\<lambda>c. cp_code c = code \<and> cp_valid_from c \<le> asOf \<and> cp_valid_to c \<ge> asOf) (coupon d) =
          (if coupon_valid_on asOf c then [c] else [])"
    by (simp add: coupon_valid_on_def)
  have one: "(\<exists>c' \<in> set (coupon d). cp_code c' = code \<and> Q c') \<longleftrightarrow> Q c" for Q
    using c uniq by blast
  have out: "(asOf < cp_valid_from c \<or> cp_valid_to c < asOf) \<longleftrightarrow> \<not> coupon_valid_on asOf c"
    by (auto simp: coupon_valid_on_def)
  show ?thesis
  proof (cases "coupon_valid_on asOf c")
    case valid: True
    then have r: "apply_coupon faults code asOf d = Success 200 (cp_discount_percent c)"
      using f assms(2) by (simp add: apply_coupon_def)
    show ?thesis unfolding r one out using valid True by simp
  next
    case invalid: False
    then have r: "apply_coupon faults code asOf d = Failure 404 ''Invalid or expired coupon''"
      using f assms(2) by (simp add: apply_coupon_def)
    show ?thesis unfolding r one out using invalid True by simp
  qed
qed

text \<open>The coupon of the example store, valid from day 100 to day 130, at both edges.\<close>

theorem apply_coupon_window_witness:
  "distinct (map cp_code (coupon shop_db))
   \<and> apply_coupon no_faults ''SAVE10'' 99 shop_db = Failure 404 ''Invalid or expired coupon''
   \<and> apply_coupon no_faults ''SAVE10'' 100 shop_db = Success 200 10
   \<and> apply_coupon no_faults ''SAVE10'' 130 shop_db = Success 200 10
   \<and> apply_coupon no_faults ''SAVE10'' 131 shop_db = Failure 404 ''Invalid or expired coupon''
   \<and> apply_coupon no_faults ''SAVE20'' 110 shop_db = Failure 404 ''Invalid or expired coupon''"
proof -
  have u: "distinct (map cp_code (coupon shop_db))" by (simp add: shop_db_def)
  have nf: "\<not> no_faults 0" by (simp add: no_faults_def)
  note w = apply_coupon_window[where faults = no_faults and d = shop_db, OF u nf]
  have c: "coupon shop_db = [\<lparr>cp_code = ''SAVE10'', cp_discount_percent = 10,
                 cp_valid_from = 100, cp_valid_to = 130\<rparr>]" by (simp add: shop_db_def)
  have "apply_coupon no_faults ''SAVE10'' 99 shop_db = Failure 404 ''Invalid or expired coupon''"
    unfolding w[THEN conjunct2] by (simp add: c)
  moreover have "apply_coupon no_faults ''SAVE10'' 100 shop_db = Success 200 10"
    unfolding w[THEN conjunct1] by (simp add: c coupon_valid_on_def)
  moreover have "apply_coupon no_faults ''SAVE10'' 130 shop_db = Success 200 10"
    unfolding w[THEN conjunct1] by (simp add: c coupon_valid_on_def)
  moreover have "apply_coupon no_faults ''SAVE10'' 131 shop_db = Failure 404 ''Invalid or expired coupon''"
    unfolding w[THEN conjunct2] by (simp add: c)
  moreover have "apply_coupon no_faults ''SAVE20'' 110 shop_db = Failure 404 ''Invalid or expired coupon''"
    unfolding w[THEN conjunct2] by (simp add: c)
  ultimately show ?thesis using u by simp
qed

section \<open>Cart quantities\<close>

lemma filter_key_update:
  fixes rows :: "cart_row list"
  shows "filter (cart_key uid pid) (map (\<lambda>r. if cart_key uid pid r then r\<lparr>c_quantity := g r\<rparr> else r) rows)
         = map (\<lambda>r. r\<lparr>c_quantity := g r\<rparr>) (filter (cart_key uid pid) rows)"
  by (induction rows) (simp_all add: cart_key_def)

lemma filter_other_update:
  fixes rows :: "cart_row list"
  shows "filter (\<lambda>r. \<not> cart_key uid pid r) (map (\<lambda>r. if cart_key uid pid r then r\<lparr>c_quantity := g r\<rparr> else r) rows)
         = filter (\<lambda>r. \<not> cart_key uid pid r) rows"
  by (induction rows) (simp_all add: cart_key_def)

lemma line_quantity_upsert:
  "line_quantity uid pid (d\<lparr>cart := upsert_cart uid pid q (cart d)\<rparr>) =
     (if line_quantity uid pid d = [] then [q] else map (\<lambda>x. x + q) (line_quantity uid pid d))"
proof (cases "list_ex (cart_key uid pid) (cart d)")
  case True
  then have ne: "filter (cart_key uid pid) (cart d) \<noteq> []"
    by (simp add: list_ex_iff filter_empty_conv)
  show ?thesis using True ne
    by (simp add: line_quantity_def upsert_cart_def filter_key_update comp_def)
next
  case False
  then have e: "filter (cart_key uid pid) (cart d) = []"
    by (simp add: list_ex_iff filter_empty_conv)
  show ?thesis using False e
    by (simp add: line_quantity_def upsert_cart_def cart_key_def)
qed

lemma others_upsert:
  "filter (\<lambda>r. \<not> cart_key uid pid r) (upsert_cart uid pid q rows) = filter (\<lambda>r. \<not> cart_key uid pid r) rows"
  by (simp add: upsert_cart_def filter_other_update) (simp add: cart_key_def)

text \<open>
  Claim C8, as stated, fails: neither cart handler looks at the quantity before it
  issues its statement. On the example store, adding product 1 with quantity 0 for
  customer 3 answers 201 and inserts a row of quantity 0, and setting customer 1's
  quantity of product 1 to -5 answers 200 and writes -5.
\<close>

theorem cart_quantity_unchecked_counterexample:
  "fst (add_to_cart no_faults 3 1 0 shop_db) = Success 201 ''Product added to cart''
   \<and> cart (snd (add_to_cart no_faults 3 1 0 shop_db)) =
       cart shop_db @ [\<lparr>c_customer_id = 3, c_product_id = 1, c_quantity = 0\<rparr>]
   \<and> fst (update_cart_quantity no_faults 1 1 (- 5) shop_db) =
       Success 200 \<lparr>c_customer_id = 1, c_product_id = 1, c_quantity = - 5\<rparr>
   \<and> cart (snd (update_cart_quantity no_faults 1 1 (- 5) shop_db)) =
       [\<lparr>c_customer_id = 1, c_product_id = 1, c_quantity = - 5\<rparr>,
        \<lparr>c_customer_id = 1, c_product_id = 2, c_quantity = 1\<rparr>,
        \<lparr>c_customer_id = 2, c_product_id = 1, c_quantity = 5\<rparr>]"
  by (simp add: add_to_cart_def update_cart_quantity_def no_faults_def upsert_cart_def
      cart_key_def shop_db_def)

text \<open>
  Claim C8, amended. For every quantity \<open>q\<close>, positive or not: when its statement does
  not raise, \<^verbatim>\<open>app.post('/cart')\<close> answers 201 and the line of the customer and product
  holds \<open>q\<close> if there was none and its former quantity plus \<open>q\<close> otherwise;
  \<^verbatim>\<open>app.put('/cart/:productId')\<close> answers 404 if there is no such line and otherwise
  200 with the line's quantity set to \<open>q\<close>. The rows of other keys are never touched. A
  400 comes from a raising statement only, and then the store is unchanged.
\<close>

theorem cart_quantity_unchecked:
  "fst (add_to_cart faults uid pid q d) =
     (if faults 0 then Failure 400 ''Error adding to cart''
      else Success 201 ''Product added to cart'')
   \<and> line_quantity uid pid (snd (add_to_cart faults uid pid q d)) =
     (if faults 0 then line_quantity uid pid d
      else if line_quantity uid pid d = [] then [q]
      else map (\<lambda>x. x + q) (line_quantity uid pid d))
   \<and> fst (update_cart_quantity faults uid pid q d) =
     (if faults 0 then Failure 400 ''Error updating cart item quantity''
      else if line_quantity uid pid d = [] then Failure 404 ''Cart item not found''
      else Success 200 \<lparr>c_customer_id = uid, c_product_id = pid, c_quantity = q\<rparr>)
   \<and> line_quantity uid pid (snd (update_cart_quantity faults uid pid q d)) =
     (if faults 0 then line_quantity uid pid d
      else map (\<lambda>x. q) (line_quantity uid pid d))
   \<and> filter (\<lambda>r. \<not> cart_key uid pid r) (cart (snd (add_to_cart faults uid pid q d))) =
       filter (\<lambda>r. \<not> cart_key uid pid r) (cart d)
   \<and> filter (\<lambda>r. \<not> cart_key uid pid r) (cart (snd (update_cart_quantity faults uid pid q d))) =
       filter (\<lambda>r. \<not> cart_key uid pid r) (cart d)
   \<and> (faults 0 \<longrightarrow> snd (add_to_cart faults uid pid q d) = d
                     \<and> snd (update_cart_quantity faults uid pid q d) = d)"
proof -
  have a1: "fst (add_to_cart faults uid pid q d) =
     (if faults 0 then Failure 400 ''Error adding to cart''
      else Success 201 ''Product added to cart'')"
    by (simp add: add_to_cart_def)
  have a2: "line_quantity uid pid (snd (add_to_cart faults uid pid q d)) =
     (if faults 0 then line_quantity uid pid d
      else if line_quantity uid pid d = [] then [q]
      else map (\<lambda>x. x + q) (line_quantity uid pid d))"
    using line_quantity_upsert[where uid = uid and pid = pid and d = d and q = q] by (simp add: add_to_cart_def)
  have a3: "filter (\<lambda>r. \<not> cart_key uid pid r) (cart (snd (add_to_cart faults uid pid q d))) =
       filter (\<lambda>r. \<not> cart_key uid pid r) (cart d)"
    by (simp add: add_to_cart_def others_upsert)
  let ?rows = "map (\<lambda>r. r\<lparr>c_quantity := q\<rparr>) (filter (cart_key uid pid) (cart d))"
  have hd_row: "?rows = item # rest \<Longrightarrow> item = \<lparr>c_customer_id = uid, c_product_id = pid, c_quantity = q\<rparr>"
    for item rest
  proof -
    assume "?rows = item # rest"
    then obtain r rs where rs: "filter (cart_key uid pid) (cart d) = r # rs"
      and item: "item = r\<lparr>c_quantity := q\<rparr>"
      by (auto simp: map_eq_Cons_conv)
    have "r \<in> set (filter (cart_key uid pid) (cart d))" unfolding rs by simp
    then have "cart_key uid pid r" by simp
    then show ?thesis unfolding item by (cases r) (simp add: cart_key_def)
  qed
  have u1: "fst (update_cart_quantity faults uid pid q d) =
     (if faults 0 then Failure 400 ''Error updating cart item quantity''
      else if line_quantity uid pid d = [] then Failure 404 ''Cart item not found''
      else Success 200 \<lparr>c_customer_id = uid, c_product_id = pid, c_quantity = q\<rparr>)"
  proof (cases ?rows)
    case Nil
    then show ?thesis by (simp add: update_cart_quantity_def line_quantity_def)
  next
    case (Cons item rest)
    then have "line_quantity uid pid d \<noteq> []" by (auto simp: line_quantity_def)
    then show ?thesis using Cons hd_row[OF Cons]
      by (simp add: update_cart_quantity_def Let_def)
  qed
  have uc: "cart (snd (update_cart_quantity faults uid pid q d)) =
     (if faults 0 then cart d
      else map (\<lambda>r. if cart_key uid pid r then r\<lparr>c_quantity := q\<rparr> else r) (cart d))"
    by (simp add: update_cart_quantity_def Let_def split: list.splits)
  have u2: "line_quantity uid pid (snd (update_cart_quantity faults uid pid q d)) =
     (if faults 0 then line_quantity uid pid d
      else map (\<lambda>x. q) (line_quantity uid pid d))"
    by (simp add: line_quantity_def uc filter_key_update comp_def)
  have u3: "filter (\<lambda>r. \<not> cart_key uid pid r) (cart (snd (update_cart_quantity faults uid pid q d))) =
       filter (\<lambda>r. \<not> cart_key uid pid r) (cart d)"
    by (simp add: uc filter_other_update)
  have f: "faults 0 \<longrightarrow> snd (add_to_cart faults uid pid q d) = d
                     \<and> snd (update_cart_quantity faults uid pid q d) = d"
    by (simp add: add_to_cart_def update_cart_quantity_def)
  show ?thesis using a1 a2 u1 u2 a3 u3 f by blast
qed

theorem cart_quantity_unchecked_witness:
  "line_quantity 1 1 shop_db = [2]
   \<and> fst (add_to_cart no_faults 1 1 (- 2) shop_db) = Success 201 ''Product added to cart''
   \<and> line_quantity 1 1 (snd (add_to_cart no_faults 1 1 (- 2) shop_db)) = [0]
   \<and> fst (update_cart_quantity no_faults 1 1 (- 2) shop_db) =
        Success 200 \<lparr>c_customer_id = 1, c_product_id = 1, c_quantity = - 2\<rparr>
   \<and> line_quantity 1 1 (snd (update_cart_quantity no_faults 1 1 (- 2) shop_db)) = [- 2]
   \<and> fst (add_to_cart (\<lambda>k. True) 1 1 (- 2) shop_db) = Failure 400 ''Error adding to cart''
   \<and> snd (add_to_cart (\<lambda>k. True) 1 1 (- 2) shop_db) = shop_db
   \<and> snd (update_cart_quantity (\<lambda>k. True) 1 1 (- 2) shop_db) = shop_db"
proof -
  have lq: "line_quantity 1 1 shop_db = [2]"
    by (simp add: line_quantity_def cart_key_def shop_db_def)
  note ok = cart_quantity_unchecked[where faults = no_faults and uid = 1 and pid = 1
      and q = "- 2" and d = shop_db]
  note raised = cart_quantity_unchecked[where faults = "\<lambda>k. True" and uid = 1 and pid = 1
      and q = "- 2" and d = shop_db]
  show ?thesis using ok raised lq by (simp add: no_faults_def)
qed

section \<open>Low-stock alerts\<close>

text \<open>
  Claim C9. When the query does not raise, \<^verbatim>\<open>app.get('/admin/low-stock-alerts')\<close>
  with threshold \<open>t\<close> answers 200 with one row for each product whose stock is at most
  \<open>t\<close> and no other row, in ascending order of stock; a request without a threshold
  is served as one with threshold 10.
\<close>

theorem low_stock_alerts_sorted:
  assumes "\<not> faults 0"
  shows "\<exists>rows. low_stock_alerts faults (Some t) d = Success 200 rows
           \<and> mset rows = mset (map alert_of (filter (\<lambda>p. p_stock_quantity p \<le> t) (product d)))
           \<and> sorted (map alert_stock rows)
           \<and> (\<forall>a \<in> set rows. alert_stock a \<le> t)
           \<and> low_stock_alerts faults None d = low_stock_alerts faults (Some 10) d"
proof -
  let ?sel = "map (\<lambda>p. (p_id p, p_name p, p_stock_quantity p))
                  (filter (\<lambda>p. p_stock_quantity p \<le> t) (product d))"
  let ?key = "\<lambda>(ident, name, stock_quantity). stock_quantity :: int"
  let ?rows = "sort_key ?key ?sel"
  have key: "?key = alert_stock" by (auto simp: alert_stock_def fun_eq_iff)
  have sel: "?sel = map alert_of (filter (\<lambda>p. p_stock_quantity p \<le> t) (product d))"
    by (simp add: alert_of_def)
  have r: "low_stock_alerts faults (Some t) d = Success 200 ?rows"
    using assms by (simp add: low_stock_alerts_def)
  have m: "mset ?rows = mset (map alert_of (filter (\<lambda>p. p_stock_quantity p \<le> t) (product d)))"
    unfolding sel by simp
  have s: "sorted (map alert_stock ?rows)"
    unfolding key by (rule sorted_sort_key)
  have "set ?rows = set ?sel" by simp
  then have b: "\<forall>a \<in> set ?rows. alert_stock a \<le> t"
    by (auto simp: alert_stock_def)
  have dflt: "low_stock_alerts faults None d = low_stock_alerts faults (Some 10) d"
    by (simp add: low_stock_alerts_def)
  show ?thesis using r m s b dflt by blast
qed

theorem low_stock_alerts_sorted_witness:
  "low_stock_alerts no_faults (Some 3) shop_db = Success 200 [(4, ''cup'', 0), (2, ''mug'', 3)]
   \<and> low_stock_alerts no_faults None shop_db = Success 200 [(4, ''cup'', 0), (2, ''mug'', 3), (3, ''pot'', 10)]"
proof -
  have nf: "\<not> no_faults 0" by (simp add: no_faults_def)
  from low_stock_alerts_sorted[where faults = no_faults and t = 3 and d = shop_db, OF nf]
  obtain rows where "low_stock_alerts no_faults (Some 3) shop_db = Success 200 rows" by blast
  then show ?thesis
    by (simp add: low_stock_alerts_def no_faults_def shop_db_def)
qed

section \<open>Sales report\<close>

lemma sales_rows_restatus: "sales_rows s e (restatus f d) = sales_rows s e d"
  by (simp add: sales_rows_def restatus_def filter_map comp_def)

lemma sales_report_restatus: "sales_report faults s e (restatus f d) = sales_report faults s e d"
  by (simp add: sales_report_def sales_rows_restatus)

lemma filter_key_at_most_one:
  assumes "distinct (map f xs)"
  shows "map (\<lambda>y. v) (filter (\<lambda>y. f y = k \<and> P y) xs) =
           (if list_ex (\<lambda>y. f y = k \<and> P y) xs then [v] else [])"
proof (cases "\<exists>x \<in> set xs. f x = k")
  case True
  then obtain x where x: "x \<in> set xs" "f x = k" by blast
  from filter_unique_key[OF assms x(1), of P] x(2)
  have flt: "filter (\<lambda>y. f y = k \<and> P y) xs = (if P x then [x] else [])" by simp
  have "list_ex (\<lambda>y. f y = k \<and> P y) xs \<longleftrightarrow> filter (\<lambda>y. f y = k \<and> P y) xs \<noteq> []"
    by (simp add: list_ex_iff filter_empty_conv)
  then show ?thesis unfolding flt by simp
next
  case False
  then have "filter (\<lambda>y. f y = k \<and> P y) xs = []" by (simp add: filter_empty_conv)
  moreover have "\<not> list_ex (\<lambda>y. f y = k \<and> P y) xs" using False by (auto simp: list_ex_iff)
  ultimately show ?thesis by simp
qed

lemma item_rows:
  assumes "distinct (map o_id (customer_order d))"
  shows "map (\<lambda>co. v)
           (filter (\<lambda>co. orderId = o_id co \<and> s \<le> o_created_at co \<and> o_created_at co \<le> e)
                   (customer_order d)) =
         (if in_range s e d orderId then [v] else [])"
proof -
  have c: "(\<lambda>co. orderId = o_id co \<and> s \<le> o_created_at co \<and> o_created_at co \<le> e) =
           (\<lambda>co. o_id co = orderId \<and> (s \<le> o_created_at co \<and> o_created_at co \<le> e))"
    by auto
  show ?thesis unfolding c in_range_def
    by (rule filter_key_at_most_one[OF assms])
qed

lemma group_members_of_item:
  assumes dp: "distinct (map p_id (product d))"
    and od: "distinct (map o_id (customer_order d))"
    and p: "p \<in> set (product d)"
  shows "filter (\<lambda>(oi', p'). (p_id p', p_name p') = (p_id p, p_name p))
           (concat (map (\<lambda>p'.
              map (\<lambda>co. (oi, p'))
                (filter (\<lambda>co. oi_order_id oi = o_id co \<and> s \<le> o_created_at co \<and> o_created_at co \<le> e)
                        (customer_order d)))
              (filter (\<lambda>p'. oi_product_id oi = p_id p') (product d)))) =
         (if oi_product_id oi = p_id p \<and> in_range s e d (oi_order_id oi) then [(oi, p)] else [])"
proof (cases "oi_product_id oi = p_id p")
  case True
  have "filter (\<lambda>p'. p_id p' = p_id p \<and> True) (product d) = [p]"
    using filter_unique_key[OF dp p, of "\<lambda>_. True"] by simp
  then have "filter (\<lambda>p'. oi_product_id oi = p_id p') (product d) = [p]"
    using True by (simp add: eq_commute)
  then show ?thesis using True by (simp add: item_rows[OF od])
next
  case False
  have "\<forall>p' \<in> set (filter (\<lambda>p'. oi_product_id oi = p_id p') (product d)). p_id p' \<noteq> p_id p"
    using False by auto
  then have "\<forall>x \<in> set (concat (map (\<lambda>p'.
              map (\<lambda>co. (oi, p'))
                (filter (\<lambda>co. oi_order_id oi = o_id co \<and> s \<le> o_created_at co \<and> o_created_at co \<le> e)
                        (customer_order d)))
              (filter (\<lambda>p'. oi_product_id oi = p_id p') (product d)))). p_id (snd x) \<noteq> p_id p"
    by auto
  then show ?thesis using False by (auto simp: filter_empty_conv)
qed

lemma filter_concat_map:
  "filter P (concat (map f xs)) = concat (map (\<lambda>x. filter P (f x)) xs)"
  by (induction xs) simp_all

lemma concat_map_singleton_if:
  "concat (map (\<lambda>x. if c x then [g x] else []) xs) = map g (filter c xs)"
  by (induction xs) simp_all

lemma group_members:
  assumes dp: "distinct (map p_id (product d))"
    and od: "distinct (map o_id (customer_order d))"
    and p: "p \<in> set (product d)"
  shows "filter (\<lambda>(oi', p'). (p_id p', p_name p') = (p_id p, p_name p)) (sales_rows s e d) =
         map (\<lambda>oi. (oi, p)) (sold_items s e d (p_id p))"
proof -
  have "filter (\<lambda>(oi', p'). (p_id p', p_name p') = (p_id p, p_name p)) (sales_rows s e d) =
        concat (map (\<lambda>oi. if oi_product_id oi = p_id p \<and> in_range s e d (oi_order_id oi)
                           then [(oi, p)] else []) (order_item d))"
    unfolding sales_rows_def
    by (subst filter_concat_map) (simp only: group_members_of_item[OF dp od p])
  also have "\<dots> = map (\<lambda>oi. (oi, p)) (sold_items s e d (p_id p))"
    unfolding sold_items_def by (rule concat_map_singleton_if)
  finally show ?thesis .
qed

lemma sales_group_total:
  assumes dp: "distinct (map p_id (product d))"
    and od: "distinct (map o_id (customer_order d))"
    and p: "p \<in> set (product d)"
  shows "sales_group (sales_rows s e d) (p_id p, p_name p) =
           \<lparr>s_id = p_id p, s_name = p_name p,
            s_total_sold = sum_list (map oi_quantity (sold_items s e d (p_id p))),
            s_revenue = sum_list (map (\<lambda>oi. oi_quantity oi * p_price p) (sold_items s e d (p_id p)))\<rparr>"
  unfolding sales_group_def Let_def group_members[OF dp od p]
  by (simp add: comp_def)

lemma sales_rows_product: "(oi, p) \<in> set (sales_rows s e d) \<Longrightarrow> p \<in> set (product d)"
  by (auto simp: sales_rows_def)

text \<open>
  Claim C10. \<^verbatim>\<open>app.get('/admin/sales-report')\<close> does not read the status of an order:
  replacing the statuses by any others leaves the report as it is. With product ids and
  order ids unique and the query not raising, the report has a row for exactly the
  products that have an \<^verbatim>\<open>order_item\<close> row in an order created within the two dates,
  and the row's \<^verbatim>\<open>total_sold\<close> and \<^verbatim>\<open>revenue\<close> sum over all those rows, whatever
  the status of their orders.
\<close>

theorem sales_report_any_status:
  assumes dp: "distinct (map p_id (product d))"
    and od: "distinct (map o_id (customer_order d))"
    and nf: "\<not> faults 0"
  shows "sales_report faults s e (restatus f d) = sales_report faults s e d
         \<and> (\<exists>rows. sales_report faults s e d = Success 200 rows
              \<and> (\<forall>p \<in> set (product d). sold_items s e d (p_id p) \<noteq> [] \<longrightarrow>
                    \<lparr>s_id = p_id p, s_name = p_name p,
                     s_total_sold = sum_list (map oi_quantity (sold_items s e d (p_id p))),
                     s_revenue = sum_list (map (\<lambda>oi. oi_quantity oi * p_price p)
                                               (sold_items s e d (p_id p)))\<rparr> \<in> set rows)
              \<and> (\<forall>r \<in> set rows. \<exists>p \<in> set (product d).
                    s_id r = p_id p \<and> sold_items s e d (p_id p) \<noteq> []))"
proof -
  let ?srows = "sales_rows s e d"
  let ?groups = "remdups (map (\<lambda>(oi, p). (p_id p, p_name p)) ?srows)"
  let ?rows = "sort_key (\<lambda>r. - s_revenue r) (map (sales_group ?srows) ?groups)"
  have r: "sales_report faults s e d = Success 200 ?rows"
    using nf by (simp add: sales_report_def Let_def)
  have rows: "set ?rows = sales_group ?srows ` (\<lambda>(oi, p). (p_id p, p_name p)) ` set ?srows"
    by simp
  have fwd: "\<lparr>s_id = p_id p, s_name = p_name p,
               s_total_sold = sum_list (map oi_quantity (sold_items s e d (p_id p))),
               s_revenue = sum_list (map (\<lambda>oi. oi_quantity oi * p_price p)
                                         (sold_items s e d (p_id p)))\<rparr> \<in> set ?rows"
    if p: "p \<in> set (product d)" and sold: "sold_items s e d (p_id p) \<noteq> []" for p
  proof -
    from sold obtain oi where "oi \<in> set (sold_items s e d (p_id p))"
      by (cases "sold_items s e d (p_id p)") auto
    then have "(oi, p) \<in> set (map (\<lambda>oi. (oi, p)) (sold_items s e d (p_id p)))" by simp
    then have "(oi, p) \<in> set (filter (\<lambda>(oi', p'). (p_id p', p_name p') = (p_id p, p_name p)) ?srows)"
      unfolding group_members[OF dp od p] .
    then have "(oi, p) \<in> set ?srows" by simp
    then have "(p_id p, p_name p) \<in> (\<lambda>(oi, p). (p_id p, p_name p)) ` set ?srows"
      by force
    then have "sales_group ?srows (p_id p, p_name p) \<in> set ?rows"
      unfolding rows by (rule imageI)
    then show ?thesis unfolding sales_group_total[OF dp od p] .
  qed
  have bwd: "\<exists>p \<in> set (product d). s_id r = p_id p \<and> sold_items s e d (p_id p) \<noteq> []"
    if "r \<in> set ?rows" for r
  proof -
    from that obtain oi p where x: "(oi, p) \<in> set ?srows"
      and rr: "r = sales_group ?srows (p_id p, p_name p)"
      unfolding rows by auto
    have p: "p \<in> set (product d)" using x by (rule sales_rows_product)
    have "(oi, p) \<in> set (filter (\<lambda>(oi', p'). (p_id p', p_name p') = (p_id p, p_name p)) ?srows)"
      using x by simp
    then have "(oi, p) \<in> set (map (\<lambda>oi. (oi, p)) (sold_items s e d (p_id p)))"
      unfolding group_members[OF dp od p] .
    then have "sold_items s e d (p_id p) \<noteq> []" by auto
    moreover have "s_id r = p_id p" unfolding rr by (simp add: sales_group_def Let_def)
    ultimately show ?thesis using p by blast
  qed
  show ?thesis using sales_report_restatus r fwd bwd by blast
qed

text \<open>
  Order 1 of the example store, once an admin has set it to \<^verbatim>\<open>Cancelled\<close>, is
  reported as before.
\<close>

lemma set_order_status_restatus:
  "snd (set_order_status faults orderId status d) =
     (if faults 0 then d
      else restatus (\<lambda>co. if o_id co = orderId then status else o_status co) d)"
proof -
  have "map (\<lambda>co. if o_id co = orderId then co\<lparr>o_status := status\<rparr> else co) xs =
        map (\<lambda>co. co\<lparr>o_status := if o_id co = orderId then status else o_status co\<rparr>) xs"
    for xs :: "order_row list"
    by (induction xs) simp_all
  then show ?thesis
    by (simp add: set_order_status_def restatus_def Let_def split: list.splits)
qed

lemma shop_db_ordered_report:
  "sales_report no_faults 0 100 shop_db_ordered =
     Success 200 [\<lparr>s_id = 1, s_name = ''tea'', s_total_sold = 2, s_revenue = 2000\<rparr>,
                  \<lparr>s_id = 2, s_name = ''mug'', s_total_sold = 1, s_revenue = 500\<rparr>]"
proof -
  have rows: "sales_rows 0 100 shop_db_ordered =
      [(\<lparr>oi_order_id = 1, oi_product_id = 1, oi_quantity = 2\<rparr>,
        \<lparr>p_id = 1, p_name = ''tea'', p_description = ''green'', p_price = 1000,
         p_category_id = 1, p_stock_quantity = 12\<rparr>),
       (\<lparr>oi_order_id = 1, oi_product_id = 2, oi_quantity = 1\<rparr>,
        \<lparr>p_id = 2, p_name = ''mug'', p_description = ''blue'', p_price = 500,
         p_category_id = 2, p_stock_quantity = 3\<rparr>)]"
    by (simp add: sales_rows_def shop_db_ordered_tables) (simp add: shop_db_def)
  show ?thesis
    by (simp add: sales_report_def rows no_faults_def sales_group_def)
qed

theorem sales_report_any_status_witness:
  "map o_status (customer_order (snd (set_order_status no_faults 1 ''Cancelled'' shop_db_ordered)))
     = [''Cancelled'']
   \<and> sales_report no_faults 0 100 (snd (set_order_status no_faults 1 ''Cancelled'' shop_db_ordered)) =
       Success 200 [\<lparr>s_id = 1, s_name = ''tea'', s_total_sold = 2, s_revenue = 2000\<rparr>,
                    \<lparr>s_id = 2, s_name = ''mug'', s_total_sold = 1, s_revenue = 500\<rparr>]"
proof -
  have dp: "distinct (map p_id (product shop_db_ordered))"
    by (simp add: shop_db_ordered_tables) (simp add: shop_db_def)
  have od: "distinct (map o_id (customer_order shop_db_ordered))"
    by (simp add: shop_db_ordered_tables)
  have nf: "\<not> no_faults 0" by (simp add: no_faults_def)
  let ?f = "\<lambda>co. if o_id co = 1 then ''Cancelled'' else o_status co"
  have eq: "snd (set_order_status no_faults 1 ''Cancelled'' shop_db_ordered) = restatus ?f shop_db_ordered"
    by (simp add: set_order_status_restatus no_faults_def)
  from sales_report_any_status[where faults = no_faults and d = shop_db_ordered and f = ?f
      and s = 0 and e = 100, OF dp od nf]
  have "sales_report no_faults 0 100 (restatus ?f shop_db_ordered) =
        sales_report no_faults 0 100 shop_db_ordered"
    by blast
  then show ?thesis unfolding eq shop_db_ordered_report
    by (simp add: restatus_def shop_db_ordered_tables)
qed

end
